theory Spec2Isabelle
  imports Main "HOL-Library.Word"
begin

unbundle bit_operations_syntax

section \<open>Process Tamer (srvctame.c): data model\<close>

text \<open>
  The development follows the configuration-aware revision of \<^verbatim>\<open>srvctame.c\<close>
  (the one with \<^verbatim>\<open>Tamer_CRC2\<close>, \<^verbatim>\<open>Tamer_GetFileCRC\<close> and \<^verbatim>\<open>Tamer_ReadConfig\<close>).
  C structs are records, the singly linked rule list is a HOL list, the global
  \<^verbatim>\<open>gTamer\<close> is a record passed through every function, and the operating system
  is an explicit \<open>world\<close> record that every system call reads or updates.
\<close>

type_synonym uint8_t = "8 word"
type_synonym uint32_t = "32 word"
type_synonym DWORD = "32 word"

subsection \<open>Constants of the source and of the Windows headers\<close>


definition SRVC_TAME_INI_FILE :: string where
  "SRVC_TAME_INI_FILE = ''SrvcTame.ini''"

definition SRVC_TAME_SERVICE_DISPLAY_NAME :: string where
  "SRVC_TAME_SERVICE_DISPLAY_NAME = ''Process Tamer''"

definition SRVC_TAME_SERVICE_DESCRIPTION :: string where
  "SRVC_TAME_SERVICE_DESCRIPTION = ''Windows process taming service''"

definition SRVC_TAME_INTERVAL :: uint32_t where
  "SRVC_TAME_INTERVAL = 10000"

text \<open>Values fixed by the Windows SDK headers (\<^verbatim>\<open>windows.h\<close>, \<^verbatim>\<open>stdlib.h\<close>).\<close>

definition MAX_PATH :: nat where
  "MAX_PATH = 260"

definition IDLE_PRIORITY_CLASS :: DWORD where
  "IDLE_PRIORITY_CLASS = 0x40"











subsection \<open>Structs\<close>

text \<open>
  \<^verbatim>\<open>Tamer_Proc\<close> without its \<^verbatim>\<open>next\<close> pointer: the list structure is the HOL list
  that holds the nodes. \<^verbatim>\<open>priority\<close> is a C \<^verbatim>\<open>int\<close> that receives the \<^verbatim>\<open>UINT\<close> of
  \<^verbatim>\<open>GetPrivateProfileInt\<close>; it is kept as the 32-bit pattern.
\<close>

record Tamer_Proc =
  procName :: string
  priority :: uint32_t

record Tamer_Config =
  serviceDispalyName :: string
  serviceDescription :: string
  filePath :: string
  interval :: uint32_t
  crc32 :: uint32_t
  procList :: "Tamer_Proc list"

record SERVICE_STATUS =
  dwServiceType :: DWORD
  dwCurrentState :: DWORD
  dwControlsAccepted :: DWORD
  dwWin32ExitCode :: DWORD

text \<open>
  \<^verbatim>\<open>gTamer\<close>. The pointer \<^verbatim>\<open>config\<close> is \<open>None\<close> while it is \<^verbatim>\<open>NULL\<close>; the status
  handle is \<open>0\<close> while unregistered.
\<close>

record Tamer_GlobalsTypeDef =
  ServiceStatus :: SERVICE_STATUS
  hStatus :: DWORD
  config :: "Tamer_Config option"
  serviceMode :: bool

text \<open>The zero-initialised instance \<^verbatim>\<open>Tamer_GlobalsTypeDef gTamer = {0}\<close>.\<close>

definition gTamer0 :: Tamer_GlobalsTypeDef where
  "gTamer0 =
     \<lparr> ServiceStatus = \<lparr> dwServiceType = 0, dwCurrentState = 0,
                         dwControlsAccepted = 0, dwWin32ExitCode = 0 \<rparr>,
       hStatus = 0, config = None, serviceMode = False \<rparr>"

text \<open>The block \<^verbatim>\<open>memset(gTamer.config, 0, sizeof(Tamer_Config))\<close> produces.\<close>

definition Tamer_Config0 :: Tamer_Config where
  "Tamer_Config0 =
     \<lparr> serviceDispalyName = [], serviceDescription = [], filePath = [],
       interval = 0, crc32 = 0, procList = [] \<rparr>"

subsection \<open>The operating system as a value\<close>

text \<open>
  An INI file as the program sees it: the bytes \<^verbatim>\<open>fread\<close> returns, and the two views
  the profile API gives of its keys (text by \<^verbatim>\<open>GetPrivateProfileString\<close>, number by
  \<^verbatim>\<open>GetPrivateProfileInt\<close>), indexed by section and key. The API's own lexing of
  the file is not part of the program.
\<close>

record ini_file =
  raw :: "uint8_t list"
  strings :: "((string \<times> string) \<times> string) list"
  ints :: "((string \<times> string) \<times> uint32_t) list"

text \<open>A live process: \<open>openable\<close> says whether \<^verbatim>\<open>OpenProcess\<close> would grant a handle.\<close>

record process =
  th32ProcessID :: DWORD
  szExeFile :: string
  priorityClass :: DWORD
  openable :: bool

text \<open>The system calls that are recorded, in the order they are made.\<close>

datatype syscall =
    SysProfileString string string
  | SysProfileInt string string
  | SysSnapshot
  | SysOpenProcess DWORD
  | SysGetPriorityClass DWORD
  | SysSetPriorityClass DWORD DWORD
  | SysSetServiceStatus DWORD
  | SysSleep DWORD

text \<open>
  \<open>heapFree\<close> counts the blocks \<^verbatim>\<open>malloc\<close> can still hand out; \<open>scmAvailable\<close> says
  whether the service control manager accepts registrations and connections.
\<close>

record world =
  files :: "(string \<times> ini_file) list"
  windowsDir :: "string option"
  currentDir :: "string option"
  procs :: "process list"
  heapFree :: nat
  scmAvailable :: bool
  trace :: "syscall list"

definition sys :: "syscall \<Rightarrow> world \<Rightarrow> world" where
  "sys e w = w\<lparr>trace := trace w @ [e]\<rparr>"

definition malloc :: "world \<Rightarrow> world option" where
  "malloc w = (if heapFree w = 0 then None else Some (w\<lparr>heapFree := heapFree w - 1\<rparr>))"

definition free :: "world \<Rightarrow> world" where
  "free w = w\<lparr>heapFree := heapFree w + 1\<rparr>"

definition fopen :: "world \<Rightarrow> string \<Rightarrow> ini_file option" where
  "fopen w fileName = map_of (files w) fileName"

section \<open>ChecksumGate: \<^verbatim>\<open>Tamer_CRC2\<close> and \<^verbatim>\<open>Tamer_GetFileCRC\<close>\<close>

text \<open>One round of the inner \<^verbatim>\<open>for ( int j = 7; j >= 0; j-- )\<close> loop.\<close>

definition crc_bit :: "uint32_t \<Rightarrow> uint32_t" where
  "crc_bit crc =
     (let mask = (if crc AND 1 \<noteq> 0 then 0xFFFFFFFF else 0x00000000)
      in drop_bit 1 crc XOR (0xEDB88320 AND mask))"

text \<open>The body of the outer loop: fold the byte in, then eight rounds.\<close>

definition crc_byte :: "uint32_t \<Rightarrow> uint8_t \<Rightarrow> uint32_t" where
  "crc_byte crc byte = (crc_bit ^^ 8) (crc XOR ucast byte)"

definition Tamer_CRC2 :: "uint8_t list \<Rightarrow> uint32_t" where
  "Tamer_CRC2 data = NOT (foldl crc_byte 0xFFFFFFFF data)"

text \<open>
  \<^verbatim>\<open>Tamer_GetFileCRC\<close>: \<open>0\<close> when the file cannot be opened or the buffer cannot be
  allocated, the checksum of the whole content otherwise. The buffer is released
  before returning, so the heap is as before and only the value is returned.
  (\<^verbatim>\<open>fread\<close> on an opened file is taken to deliver the whole content.)
\<close>

definition Tamer_GetFileCRC :: "string \<Rightarrow> world \<Rightarrow> uint32_t" where
  "Tamer_GetFileCRC fileName w =
     (case fopen w fileName of
        None \<Rightarrow> 0
      | Some f \<Rightarrow>
          (case malloc w of
             None \<Rightarrow> 0
           | Some w1 \<Rightarrow> Tamer_CRC2 (raw f)))"

text \<open>
  The specification's wording of the digest, for comparison with the code: a
  reflected (least significant bit first) shift register with polynomial
  \<open>0xEDB88320\<close>, started at \<open>0xFFFFFFFF\<close>, fed one message bit at a time, and
  complemented at the end.
\<close>

definition lfsr_step :: "uint32_t \<Rightarrow> bool \<Rightarrow> uint32_t" where
  "lfsr_step reg b =
     (if bit reg 0 \<noteq> b then drop_bit 1 reg XOR 0xEDB88320 else drop_bit 1 reg)"

definition byte_bits :: "uint8_t \<Rightarrow> bool list" where
  "byte_bits x = map (bit x) [0..<8]"

definition crc32_ieee :: "uint8_t list \<Rightarrow> uint32_t" where
  "crc32_ieee data = NOT (foldl lfsr_step 0xFFFFFFFF (concat (map byte_bits data)))"

section \<open>RuleSetLoader and ConfigStore: \<^verbatim>\<open>Tamer_ReadConfig\<close>\<close>

subsection \<open>Library and system calls used by the loader\<close>

text \<open>
  Modelled from the spec: the list macros \<^verbatim>\<open>LL_APPEND\<close>, \<^verbatim>\<open>LL_COUNT\<close>,
  \<^verbatim>\<open>LL_FOREACH\<close> and \<^verbatim>\<open>LL_FOREACH_SAFE\<close> come from \<^verbatim>\<open>llist.h\<close>, a header that is
  not among the sources. The rule set is an ordered sequence to which the loader
  appends a rule: \<^verbatim>\<open>LL_APPEND\<close> adds the node at the tail, \<^verbatim>\<open>LL_COUNT\<close> counts the
  nodes, and the two iteration macros visit the nodes from the head on (a \<open>foldl\<close>
  in the functions below).
\<close>

definition LL_APPEND :: "'a list \<Rightarrow> 'a \<Rightarrow> 'a list" where
  "LL_APPEND head el = head @ [el]"

definition LL_COUNT :: "'a list \<Rightarrow> int" where
  "LL_COUNT head = int (length head)"

text \<open>\<^verbatim>\<open>snprintf\<close> with \<^verbatim>\<open>%d\<close> on a positive index: its decimal digits.\<close>

function decimal :: "nat \<Rightarrow> string" where
  "decimal n =
     (if n < 10 then [''0123456789'' ! n]
      else decimal (n div 10) @ [''0123456789'' ! (n mod 10)])"
  by pat_completeness auto
termination
  by (relation "measure id") auto

declare decimal.simps [simp del]

text \<open>
  The profile API. A key that is absent, or a file that cannot be opened, yields
  the caller's default. \<^verbatim>\<open>GetPrivateProfileString\<close> copies at most \<open>nSize - 1\<close>
  characters and returns how many it copied.
\<close>

definition profile_text :: "world \<Rightarrow> string \<Rightarrow> string \<Rightarrow> string \<Rightarrow> string option" where
  "profile_text w fileName app key =
     (case fopen w fileName of
        None \<Rightarrow> None
      | Some f \<Rightarrow> map_of (strings f) (app, key))"

definition profile_number :: "world \<Rightarrow> string \<Rightarrow> string \<Rightarrow> string \<Rightarrow> uint32_t option" where
  "profile_number w fileName app key =
     (case fopen w fileName of
        None \<Rightarrow> None
      | Some f \<Rightarrow> map_of (ints f) (app, key))"

definition GetPrivateProfileString ::
  "string \<Rightarrow> string \<Rightarrow> string \<Rightarrow> nat \<Rightarrow> string \<Rightarrow> world \<Rightarrow> nat \<times> string \<times> world" where
  "GetPrivateProfileString app key dflt nSize fileName w =
     (let buf = take (nSize - 1)
                  (case profile_text w fileName app key of None \<Rightarrow> dflt | Some s \<Rightarrow> s)
      in (length buf, buf, sys (SysProfileString app key) w))"

definition GetPrivateProfileInt ::
  "string \<Rightarrow> string \<Rightarrow> uint32_t \<Rightarrow> string \<Rightarrow> world \<Rightarrow> uint32_t \<times> world" where
  "GetPrivateProfileInt app key dflt fileName w =
     ((case profile_number w fileName app key of None \<Rightarrow> dflt | Some v \<Rightarrow> v),
      sys (SysProfileInt app key) w)"

text \<open>
  Directory queries: \<open>0\<close> on failure, the length of the path when it fits the
  buffer, and the required size with the buffer left empty when it does not.
\<close>

definition directory_query :: "string option \<Rightarrow> nat \<times> string" where
  "directory_query dir =
     (case dir of
        None \<Rightarrow> (0, [])
      | Some d \<Rightarrow> if length d < MAX_PATH then (length d, d) else (length d + 1, []))"

definition GetWindowsDirectory :: "world \<Rightarrow> nat \<times> string" where
  "GetWindowsDirectory w = directory_query (windowsDir w)"

definition GetCurrentDirectory :: "world \<Rightarrow> nat \<times> string" where
  "GetCurrentDirectory w = directory_query (currentDir w)"

subsection \<open>The steps of \<^verbatim>\<open>Tamer_ReadConfig\<close>\<close>

text \<open>
  First run: allocate and zero the configuration block. \<open>None\<close> is the early
  \<^verbatim>\<open>return 0\<close> on a failed allocation.
\<close>

definition first_run :: "Tamer_GlobalsTypeDef \<Rightarrow> world \<Rightarrow> (Tamer_Config \<times> world) option" where
  "first_run g w =
     (case config g of
        Some c \<Rightarrow> Some (c, w)
      | None \<Rightarrow>
          (case malloc w of
             None \<Rightarrow> None
           | Some w1 \<Rightarrow> Some (Tamer_Config0, w1)))"

text \<open>
  Figure the configuration file name and path, once: the Windows directory in
  service mode, the current directory otherwise. \<open>None\<close> is the \<^verbatim>\<open>break\<close> on a
  failed directory query. \<^verbatim>\<open>snprintf\<close> truncates to the buffer.
\<close>

definition figure_path :: "bool \<Rightarrow> Tamer_Config \<Rightarrow> world \<Rightarrow> Tamer_Config option" where
  "figure_path mode c w =
     (if filePath c = [] then
        (case (if mode then GetWindowsDirectory w else GetCurrentDirectory w) of
           (n, iniFile) \<Rightarrow>
             if n = 0 then None
             else Some (c\<lparr>filePath :=
                    take (MAX_PATH - 1) (iniFile @ [CHR 0x5C] @ SRVC_TAME_INI_FILE)\<rparr>))
      else Some c)"

text \<open>
  The \<^verbatim>\<open>while ( 1 )\<close> loop that builds the list. Each round allocates a node, reads
  \<^verbatim>\<open>Process{N}_Name\<close> into it (buffer of 128, size argument 127), and leaves the loop
  when the allocation fails or nothing was copied (key absent or empty); otherwise
  it reads \<^verbatim>\<open>Process{N}_Prio\<close> with default 0 and appends the node.
\<close>

function build_list :: "string \<Rightarrow> nat \<Rightarrow> Tamer_Proc list \<Rightarrow> world \<Rightarrow> Tamer_Proc list \<times> world" where
  "build_list path processIndex lst w =
     (case malloc w of
        None \<Rightarrow> (lst, w)
      | Some w1 \<Rightarrow>
          (case GetPrivateProfileString ''Processes''
                  (''Process'' @ decimal processIndex @ ''_Name'') [] (128 - 1) path w1 of
             (n, name, w2) \<Rightarrow>
               if n = 0 then (lst, free w2)
               else
                 (case GetPrivateProfileInt ''Processes''
                         (''Process'' @ decimal processIndex @ ''_Prio'') 0 path w2 of
                    (prio, w3) \<Rightarrow>
                      build_list path (processIndex + 1)
                        (LL_APPEND lst \<lparr>procName = name, priority = prio\<rparr>) w3)))"
  by pat_completeness auto
termination
  by (relation "measure (\<lambda>(path, processIndex, lst, w). heapFree w)")
     (auto simp add: malloc_def GetPrivateProfileString_def GetPrivateProfileInt_def sys_def
           split: if_splits)

declare build_list.simps [simp del]

text \<open>
  The branch taken when the checksum differs from the stored one: read the
  service settings, release the old list, store the new checksum, rebuild.
\<close>

definition reload :: "Tamer_Config \<Rightarrow> uint32_t \<Rightarrow> world \<Rightarrow> Tamer_Config \<times> world" where
  "reload c crc w =
     (case GetPrivateProfileString ''Service'' ''DisplayName''
             SRVC_TAME_SERVICE_DISPLAY_NAME (256 - 1) (filePath c) w of
        (n1, displayName, w1) \<Rightarrow>
     (case GetPrivateProfileString ''Service'' ''Description''
             SRVC_TAME_SERVICE_DESCRIPTION (256 - 1) (filePath c) w1 of
        (n2, description, w2) \<Rightarrow>
     (case GetPrivateProfileInt ''Service'' ''Interval'' SRVC_TAME_INTERVAL (filePath c) w2 of
        (ival, w3) \<Rightarrow>
     (let w4 = foldl (\<lambda>w el. free w) w3 (procList c);
          c1 = c\<lparr>serviceDispalyName := displayName, serviceDescription := description,
                 interval := ival, procList := [], crc32 := crc\<rparr>
      in (case build_list (filePath c1) 1 (procList c1) w4 of
            (lst, w5) \<Rightarrow> (c1\<lparr>procList := lst\<rparr>, w5))))))"

text \<open>
  \<^verbatim>\<open>Tamer_ReadConfig\<close>: the returned integer, the globals and the world afterwards.
  Every \<^verbatim>\<open>break\<close> out of the \<^verbatim>\<open>do { } while ( 0 )\<close> returns the initial \<open>0\<close>.
\<close>

definition Tamer_ReadConfig ::
  "Tamer_GlobalsTypeDef \<Rightarrow> world \<Rightarrow> int \<times> Tamer_GlobalsTypeDef \<times> world" where
  "Tamer_ReadConfig g w =
     (case first_run g w of
        None \<Rightarrow> (0, g, w)
      | Some (c0, w0) \<Rightarrow>
          (case figure_path (serviceMode g) c0 w0 of
             None \<Rightarrow> (0, g\<lparr>config := Some c0\<rparr>, w0)
           | Some c1 \<Rightarrow>
               (let crc = Tamer_GetFileCRC (filePath c1) w0 in
                if crc = 0 then (0, g\<lparr>config := Some c1\<rparr>, w0)
                else if crc \<noteq> crc32 c1 then
                  (case reload c1 crc w0 of
                     (c2, w2) \<Rightarrow> (LL_COUNT (procList c2), g\<lparr>config := Some c2\<rparr>, w2))
                else (LL_COUNT (procList c1), g\<lparr>config := Some c1\<rparr>, w0))))"

section \<open>ProcessEnforcer: \<^verbatim>\<open>Tamer_SetProcessPriority\<close> and \<^verbatim>\<open>Tamer_ServiceProcess\<close>\<close>

text \<open>
  \<^verbatim>\<open>_stricmp\<close>: compare after mapping \<open>A\<close>..\<open>Z\<close> to lower case; negative, zero or
  positive.
\<close>

definition tolower :: "char \<Rightarrow> char" where
  "tolower c =
     (case map_of (zip ''ABCDEFGHIJKLMNOPQRSTUVWXYZ'' ''abcdefghijklmnopqrstuvwxyz'') c of
        None \<Rightarrow> c
      | Some l \<Rightarrow> l)"

fun stricmp :: "string \<Rightarrow> string \<Rightarrow> int" where
  "stricmp [] [] = 0"
| "stricmp [] (b # bs) = - 1"
| "stricmp (a # as) [] = 1"
| "stricmp (a # as) (b # bs) =
     (if tolower a = tolower b then stricmp as bs
      else if (of_char (tolower a) :: nat) < of_char (tolower b) then - 1 else 1)"

text \<open>
  The process calls. A snapshot lists process id and image name of every live
  process; the later calls act on the live table. A handle is the process id.
  \<^verbatim>\<open>OpenProcess\<close> fails for a process that is gone or not \<open>openable\<close>; a handle
  opened with \<^verbatim>\<open>PROCESS_ALL_ACCESS\<close> can read and set the priority class.
\<close>

definition CreateToolhelp32Snapshot :: "world \<Rightarrow> (DWORD \<times> string) list \<times> world" where
  "CreateToolhelp32Snapshot w =
     (map (\<lambda>p. (th32ProcessID p, szExeFile p)) (procs w), sys SysSnapshot w)"

definition OpenProcess :: "DWORD \<Rightarrow> world \<Rightarrow> DWORD option \<times> world" where
  "OpenProcess pid w =
     ((case find (\<lambda>p. th32ProcessID p = pid) (procs w) of
         None \<Rightarrow> None
       | Some p \<Rightarrow> if openable p then Some pid else None),
      sys (SysOpenProcess pid) w)"

definition GetPriorityClass :: "DWORD \<Rightarrow> world \<Rightarrow> DWORD \<times> world" where
  "GetPriorityClass h w =
     ((case find (\<lambda>p. th32ProcessID p = h) (procs w) of
         None \<Rightarrow> 0
       | Some p \<Rightarrow> priorityClass p),
      sys (SysGetPriorityClass h) w)"

definition SetPriorityClass :: "DWORD \<Rightarrow> DWORD \<Rightarrow> world \<Rightarrow> world" where
  "SetPriorityClass h cls w =
     sys (SysSetPriorityClass h cls)
       (w\<lparr>procs := map (\<lambda>p. if th32ProcessID p = h then p\<lparr>priorityClass := cls\<rparr> else p)
                      (procs w)\<rparr>)"

text \<open>The body of \<^verbatim>\<open>while ( hRes )\<close> for one snapshot entry.\<close>

definition visit_entry :: "Tamer_Proc \<Rightarrow> DWORD \<times> string \<Rightarrow> world \<Rightarrow> world" where
  "visit_entry proc pEntry w =
     (if stricmp (snd pEntry) (procName proc) = 0 then
        (case OpenProcess (fst pEntry) w of
           (None, w1) \<Rightarrow> w1
         | (Some hProcess, w1) \<Rightarrow>
             (case GetPriorityClass hProcess w1 of
                (cls, w2) \<Rightarrow>
                  if cls \<noteq> IDLE_PRIORITY_CLASS
                  then SetPriorityClass hProcess IDLE_PRIORITY_CLASS w2
                  else w2))
      else w)"

text \<open>The loop from \<^verbatim>\<open>Process32First\<close> to the last \<^verbatim>\<open>Process32Next\<close>.\<close>

fun enum_loop :: "Tamer_Proc \<Rightarrow> (DWORD \<times> string) list \<Rightarrow> world \<Rightarrow> world" where
  "enum_loop proc [] w = w"
| "enum_loop proc (pEntry # rest) w = enum_loop proc rest (visit_entry proc pEntry w)"

definition Tamer_SetProcessPriority :: "Tamer_Proc \<Rightarrow> world \<Rightarrow> world" where
  "Tamer_SetProcessPriority proc w =
     (case CreateToolhelp32Snapshot w of
        (hSnapShot, w1) \<Rightarrow> enum_loop proc hSnapShot w1)"

text \<open>\<^verbatim>\<open>Tamer_ServiceProcess\<close>: one refresh, then one call per rule of the list.\<close>

definition Tamer_ServiceProcess ::
  "Tamer_GlobalsTypeDef \<Rightarrow> world \<Rightarrow> bool \<times> Tamer_GlobalsTypeDef \<times> world" where
  "Tamer_ServiceProcess g w =
     (case Tamer_ReadConfig g w of
        (n, g1, w1) \<Rightarrow>
          if n = 0 then (False, g1, w1)
          else
            (case config g1 of
               None \<Rightarrow> (False, g1, w1)
             | Some c \<Rightarrow>
                 if procList c = [] then (False, g1, w1)
                 else (True, g1,
                       foldl (\<lambda>w el. Tamer_SetProcessPriority el w) w1 (procList c))))"

section \<open>Scheduler: \<^verbatim>\<open>Tamer_ServiceControl\<close>, \<^verbatim>\<open>Tamer_ServiceMain\<close> and \<^verbatim>\<open>main\<close>\<close>


















section \<open>Observations used in the statements\<close>

text \<open>
  What the loader reads for index \<open>N\<close>: the text copied for \<^verbatim>\<open>Process{N}_Name\<close>
  (at most 126 characters, empty when the key is absent), the number read for
  \<^verbatim>\<open>Process{N}_Prio\<close> (0 when absent), and the node built from both.
\<close>

definition name_at :: "world \<Rightarrow> string \<Rightarrow> nat \<Rightarrow> string" where
  "name_at w path i =
     take 126 (case profile_text w path ''Processes'' (''Process'' @ decimal i @ ''_Name'') of
                 None \<Rightarrow> [] | Some s \<Rightarrow> s)"

definition prio_at :: "world \<Rightarrow> string \<Rightarrow> nat \<Rightarrow> uint32_t" where
  "prio_at w path i =
     (case profile_number w path ''Processes'' (''Process'' @ decimal i @ ''_Prio'') of
        None \<Rightarrow> 0 | Some v \<Rightarrow> v)"

definition rule_at :: "world \<Rightarrow> string \<Rightarrow> nat \<Rightarrow> Tamer_Proc" where
  "rule_at w path i = \<lparr>procName = name_at w path i, priority = prio_at w path i\<rparr>"

text \<open>The two profile calls the loader makes for an index at which it finds a name.\<close>

definition rule_queries :: "nat \<Rightarrow> syscall list" where
  "rule_queries i =
     [SysProfileString ''Processes'' (''Process'' @ decimal i @ ''_Name''),
      SysProfileInt ''Processes'' (''Process'' @ decimal i @ ''_Prio'')]"

text \<open>The rules currently stored (none while there is no configuration block).\<close>

definition rules_of :: "Tamer_GlobalsTypeDef \<Rightarrow> Tamer_Proc list" where
  "rules_of g = (case config g of None \<Rightarrow> [] | Some c \<Rightarrow> procList c)"

text \<open>Readings of the recorded system calls.\<close>

fun profile_call :: "syscall \<Rightarrow> bool" where
  "profile_call (SysProfileString app key) = True"
| "profile_call (SysProfileInt app key) = True"
| "profile_call e = False"

fun snapshots :: "syscall list \<Rightarrow> nat" where
  "snapshots [] = 0"
| "snapshots (SysSnapshot # es) = Suc (snapshots es)"
| "snapshots (e # es) = snapshots es"

fun open_attempts :: "syscall list \<Rightarrow> DWORD list" where
  "open_attempts [] = []"
| "open_attempts (SysOpenProcess pid # es) = pid # open_attempts es"
| "open_attempts (e # es) = open_attempts es"

fun sleeps :: "syscall list \<Rightarrow> DWORD list" where
  "sleeps [] = []"
| "sleeps (SysSleep ms # es) = ms # sleeps es"
| "sleeps (e # es) = sleeps es"

text \<open>
  One process as a rule leaves it, and the calls made for it: it is touched only
  when its image name compares equal to the rule's name.
\<close>

definition tamed :: "Tamer_Proc \<Rightarrow> process \<Rightarrow> process" where
  "tamed proc p =
     (if stricmp (szExeFile p) (procName proc) = 0 \<and> openable p
      then p\<lparr>priorityClass := IDLE_PRIORITY_CLASS\<rparr> else p)"

definition calls_for :: "Tamer_Proc \<Rightarrow> process \<Rightarrow> syscall list" where
  "calls_for proc p =
     (if stricmp (szExeFile p) (procName proc) = 0 then
        SysOpenProcess (th32ProcessID p) #
        (if openable p then
           SysGetPriorityClass (th32ProcessID p) #
           (if priorityClass p \<noteq> IDLE_PRIORITY_CLASS
            then [SysSetPriorityClass (th32ProcessID p) IDLE_PRIORITY_CLASS] else [])
         else [])
      else [])"

text \<open>
  One process as a whole list of rules leaves it, and the calls of one pass over
  the list: for each rule in turn a snapshot and then the calls for every process,
  as the rules before it have left them.
\<close>

definition tamed_by :: "Tamer_Proc list \<Rightarrow> process \<Rightarrow> process" where
  "tamed_by rules p =
     (if openable p \<and> (\<exists>r \<in> set rules. stricmp (szExeFile p) (procName r) = 0)
      then p\<lparr>priorityClass := IDLE_PRIORITY_CLASS\<rparr> else p)"

fun pass_calls :: "Tamer_Proc list \<Rightarrow> process list \<Rightarrow> syscall list" where
  "pass_calls [] ps = []"
| "pass_calls (r # rs) ps =
     SysSnapshot # concat (map (calls_for r) ps) @ pass_calls rs (map (tamed r) ps)"





text \<open>
  Auxiliary relations for the proofs: \<open>same_os w w'\<close> says that \<open>w'\<close> differs from
  \<open>w\<close> at most in the free heap and in profile calls appended to the trace;
  \<open>released c w\<close> is the world in which the loop of \<^verbatim>\<open>Tamer_ReadConfig\<close> starts.
\<close>

definition same_os :: "world \<Rightarrow> world \<Rightarrow> bool" where
  "same_os w w' \<longleftrightarrow>
     (\<exists>h es. w' = w\<lparr>heapFree := h, trace := trace w @ es\<rparr> \<and> list_all profile_call es)"

definition released :: "Tamer_Config \<Rightarrow> world \<Rightarrow> world" where
  "released c w =
     (sys (SysProfileInt ''Service'' ''Interval'')
       (sys (SysProfileString ''Service'' ''Description'')
         (sys (SysProfileString ''Service'' ''DisplayName'') w)))
       \<lparr>heapFree := heapFree w + length (procList c)\<rparr>"

section \<open>A concrete host\<close>

text \<open>
  Files, processes and states on which the statements below are evaluated. A file
  is given by its lines; each line ends in a line feed.
\<close>

definition text_lines :: "string list \<Rightarrow> uint8_t list" where
  "text_lines ls = map of_char (concat (map (\<lambda>l. l @ [CHR 0x0A]) ls))"

definition ini_path :: string where
  "ini_path = ''C:'' @ [CHR 0x5C] @ ''Windows'' @ [CHR 0x5C] @ ''SrvcTame.ini''"

text \<open>Rule 1 and rule 3, but no rule 2.\<close>

definition ini_gap :: ini_file where
  "ini_gap =
     \<lparr> raw = text_lines [''[Processes]'', ''Process1_Name=foo.exe'', ''Process1_Prio=128'',
                         ''Process3_Name=baz.exe''],
       strings = [((''Processes'', ''Process1_Name''), ''foo.exe''),
                  ((''Processes'', ''Process1_Prio''), ''128''),
                  ((''Processes'', ''Process3_Name''), ''baz.exe'')],
       ints = [((''Processes'', ''Process1_Prio''), 128)] \<rparr>"

text \<open>The same file while it is being edited: the section is there, no rule yet.\<close>

definition ini_blank :: ini_file where
  "ini_blank = \<lparr> raw = text_lines [''[Processes]''], strings = [], ints = [] \<rparr>"

text \<open>Two rules that name the same image.\<close>

definition ini_twice :: ini_file where
  "ini_twice =
     \<lparr> raw = text_lines [''[Processes]'', ''Process1_Name=foo.exe'', ''Process2_Name=FOO.EXE''],
       strings = [((''Processes'', ''Process1_Name''), ''foo.exe''),
                  ((''Processes'', ''Process2_Name''), ''FOO.EXE'')],
       ints = [] \<rparr>"

text \<open>
  Four processes: three images of \<open>foo.exe\<close> in different spellings, one of them
  protected against \<^verbatim>\<open>OpenProcess\<close> and one running at \<^verbatim>\<open>HIGH_PRIORITY_CLASS\<close>
  (\<open>0x80\<close>); the others run at \<^verbatim>\<open>NORMAL_PRIORITY_CLASS\<close> (\<open>0x20\<close>).
\<close>

definition host_procs :: "process list" where
  "host_procs =
     [\<lparr>th32ProcessID = 4, szExeFile = ''foo.exe'', priorityClass = 0x20, openable = True\<rparr>,
      \<lparr>th32ProcessID = 8, szExeFile = ''FOO.EXE'', priorityClass = 0x20, openable = False\<rparr>,
      \<lparr>th32ProcessID = 12, szExeFile = ''bar.exe'', priorityClass = 0x20, openable = True\<rparr>,
      \<lparr>th32ProcessID = 16, szExeFile = ''Foo.exe'', priorityClass = 0x80, openable = True\<rparr>]"

definition host :: "(string \<times> ini_file) list \<Rightarrow> world" where
  "host fs =
     \<lparr> files = fs, windowsDir = Some (''C:'' @ [CHR 0x5C] @ ''Windows''), currentDir = None,
       procs = host_procs, heapFree = 16, scmAvailable = True, trace = [] \<rparr>"

text \<open>The rule of \<open>ini_gap\<close>, and the configuration once \<open>ini_gap\<close> has been loaded.\<close>

definition rule_foo :: Tamer_Proc where
  "rule_foo = \<lparr>procName = ''foo.exe'', priority = 128\<rparr>"

definition loaded_gap :: Tamer_Config where
  "loaded_gap =
     \<lparr> serviceDispalyName = SRVC_TAME_SERVICE_DISPLAY_NAME,
       serviceDescription = SRVC_TAME_SERVICE_DESCRIPTION,
       filePath = ini_path, interval = SRVC_TAME_INTERVAL, crc32 = 0x17AD5D31,
       procList = [rule_foo] \<rparr>"

text \<open>The configuration once \<open>ini_twice\<close> has been loaded.\<close>

definition loaded_twice :: Tamer_Config where
  "loaded_twice =
     \<lparr> serviceDispalyName = SRVC_TAME_SERVICE_DISPLAY_NAME,
       serviceDescription = SRVC_TAME_SERVICE_DESCRIPTION,
       filePath = ini_path, interval = SRVC_TAME_INTERVAL, crc32 = 0x3C41C34A,
       procList = [\<lparr>procName = ''foo.exe'', priority = 0\<rparr>,
                   \<lparr>procName = ''FOO.EXE'', priority = 0\<rparr>] \<rparr>"

definition service_globals :: "Tamer_Config option \<Rightarrow> Tamer_GlobalsTypeDef" where
  "service_globals c = gTamer0\<lparr>config := c, serviceMode := True\<rparr>"

section \<open>Properties of the checksum\<close>

lemma crc_bit_alt:
  "crc_bit r = (if bit r 0 then drop_bit 1 r XOR 0xEDB88320 else drop_bit 1 r)"
  by (simp add: crc_bit_def and_one_eq bit_0 mod_2_eq_odd)

lemma bit0_residue:
  assumes "k < 8"
  shows "bit (s XOR drop_bit k (ucast (byte :: uint8_t) :: uint32_t)) 0
         = (bit s 0 \<noteq> bit byte k)"
  using assms by (simp add: bit_xor_iff bit_drop_bit_eq bit_ucast_iff)

lemma crc_bit_residue:
  assumes "k < 8"
  shows "crc_bit (s XOR drop_bit k (ucast (byte :: uint8_t)))
         = lfsr_step s (bit byte k) XOR drop_bit (Suc k) (ucast byte)"
proof -
  have d: "drop_bit 1 (s XOR drop_bit k (ucast byte :: uint32_t))
           = drop_bit 1 s XOR drop_bit (Suc k) (ucast byte)"
    by simp
  show ?thesis
    unfolding crc_bit_alt lfsr_step_def bit0_residue [OF assms] d
    by (simp add: xor.assoc xor.commute xor.left_commute)
qed

lemma crc_bit_funpow:
  "k \<le> 8 \<Longrightarrow> (crc_bit ^^ k) (reg XOR ucast (byte :: uint8_t))
     = foldl lfsr_step reg (map (bit byte) [0..<k]) XOR drop_bit k (ucast byte)"
proof (induction k)
  case 0
  then show ?case by simp
next
  case (Suc k)
  then have "k < 8" by simp
  with Suc show ?case by (simp add: crc_bit_residue)
qed

lemma drop_bit_8_ucast: "drop_bit 8 (ucast (byte :: uint8_t) :: uint32_t) = 0"
  by (rule bit_eqI) (auto simp add: bit_drop_bit_eq bit_ucast_iff dest: bit_imp_le_length)

lemma crc_byte_bits: "crc_byte reg byte = foldl lfsr_step reg (byte_bits byte)"
  using crc_bit_funpow [of 8 reg byte]
  by (simp add: crc_byte_def byte_bits_def drop_bit_8_ucast)

lemma foldl_crc_byte:
  "foldl crc_byte reg data = foldl lfsr_step reg (concat (map byte_bits data))"
  by (induction data arbitrary: reg) (simp_all add: crc_byte_bits)

text \<open>Evaluating the checksum of given bytes: the eight rounds, one numeral at a time.\<close>

lemma crc_bit_numeral:
  "crc_bit (numeral n) =
     (if bit (numeral n :: uint32_t) 0 then drop_bit 1 (numeral n) XOR 0xEDB88320
      else drop_bit 1 (numeral n))"
  by (rule crc_bit_alt)

lemma crc_byte_unroll:
  "crc_byte c b =
     crc_bit (crc_bit (crc_bit (crc_bit (crc_bit (crc_bit (crc_bit (crc_bit (c XOR ucast b))))))))"
  by (simp add: crc_byte_def eval_nat_numeral)

lemmas crc_eval = Tamer_CRC2_def text_lines_def crc_byte_unroll crc_bit_numeral

section \<open>Lemmas about the loader, the enforcer and the loops\<close>

subsection \<open>Reading the trace\<close>

lemma snapshots_append: "snapshots (xs @ ys) = snapshots xs + snapshots ys"
  by (induction xs rule: snapshots.induct) simp_all

lemma open_attempts_append: "open_attempts (xs @ ys) = open_attempts xs @ open_attempts ys"
  by (induction xs rule: open_attempts.induct) simp_all

lemma sleeps_append: "sleeps (xs @ ys) = sleeps xs @ sleeps ys"
  by (induction xs rule: sleeps.induct) simp_all


subsection \<open>Worlds that differ in free heap and profile calls only\<close>

lemma same_os_refl: "same_os w w"
  unfolding same_os_def by (rule exI [of _ "heapFree w"], rule exI [of _ "[]"]) simp

lemma same_os_trans: "same_os w w1 \<Longrightarrow> same_os w1 w2 \<Longrightarrow> same_os w w2"
  unfolding same_os_def by (elim exE conjE, rule_tac x = ha in exI, rule_tac x = "es @ esa" in exI) simp

lemma same_os_sys: "profile_call e \<Longrightarrow> same_os w (sys e w)"
  unfolding same_os_def sys_def by (rule exI [of _ "heapFree w"], rule exI [of _ "[e]"]) simp

lemma same_os_heap: "same_os w (w\<lparr>heapFree := h\<rparr>)"
  unfolding same_os_def by (rule exI [of _ h], rule exI [of _ "[]"]) simp

lemma same_os_fields:
  assumes "same_os w w'"
  shows "files w' = files w" "procs w' = procs w" "windowsDir w' = windowsDir w"
    "currentDir w' = currentDir w" "scmAvailable w' = scmAvailable w"
  using assms unfolding same_os_def by auto


lemma same_os_rule_at:
  assumes "same_os w w'"
  shows "name_at w' = name_at w" and "rule_at w' = rule_at w"
  using same_os_fields(1) [OF assms]
  by (simp_all add: fun_eq_iff name_at_def rule_at_def prio_at_def profile_text_def
        profile_number_def fopen_def)

lemma name_at_sys [simp]: "name_at (sys e w) path i = name_at w path i"
  unfolding name_at_def profile_text_def fopen_def sys_def by simp

lemma name_at_heap [simp]: "name_at (w\<lparr>heapFree := h\<rparr>) path i = name_at w path i"
  unfolding name_at_def profile_text_def fopen_def by simp

lemma rule_at_sys [simp]: "rule_at (sys e w) path i = rule_at w path i"
  unfolding rule_at_def name_at_def prio_at_def profile_text_def profile_number_def fopen_def sys_def by simp

lemma rule_at_heap [simp]: "rule_at (w\<lparr>heapFree := h\<rparr>) path i = rule_at w path i"
  unfolding rule_at_def name_at_def prio_at_def profile_text_def profile_number_def fopen_def by simp

lemma heapFree_sys [simp]: "heapFree (sys e w) = heapFree w"
  by (simp add: sys_def)

subsection \<open>The loop that builds the list\<close>

lemma min_length_0: "(min (length s) (126::nat) = 0) = (s = [])"
  by (cases s) simp_all

lemma build_list_unfold:
  "build_list path i lst w =
     (if heapFree w = 0 then (lst, w)
      else if name_at w path i = [] then
        (lst, sys (SysProfileString ''Processes'' (''Process'' @ decimal i @ ''_Name'')) w)
      else build_list path (i + 1) (lst @ [rule_at w path i])
             (sys (SysProfileInt ''Processes'' (''Process'' @ decimal i @ ''_Prio''))
               (sys (SysProfileString ''Processes'' (''Process'' @ decimal i @ ''_Name''))
                 (w\<lparr>heapFree := heapFree w - 1\<rparr>))))"
  by (subst build_list.simps)
     (simp add: malloc_def free_def sys_def GetPrivateProfileString_def GetPrivateProfileInt_def
        name_at_def prio_at_def rule_at_def profile_text_def profile_number_def fopen_def
        LL_APPEND_def Let_def min_length_0)

lemma build_list_same_os: "same_os w (snd (build_list path i lst w))"
proof (induction "heapFree w" arbitrary: i lst w)
  case 0
  then show ?case by (subst build_list_unfold) (simp add: same_os_refl)
next
  case (Suc k)
  let ?e1 = "SysProfileString ''Processes'' (''Process'' @ decimal i @ ''_Name'')"
  let ?e2 = "SysProfileInt ''Processes'' (''Process'' @ decimal i @ ''_Prio'')"
  let ?w = "sys ?e2 (sys ?e1 (w\<lparr>heapFree := heapFree w - 1\<rparr>))"
  show ?case
  proof (cases "name_at w path i = []")
    case True
    with Suc.hyps(2) show ?thesis
      by (subst build_list_unfold) (simp add: same_os_sys)
  next
    case False
    have k: "k = heapFree ?w" using Suc.hyps(2) by simp
    have "same_os w ?w"
      by (rule same_os_trans [OF same_os_heap], rule same_os_trans [OF same_os_sys same_os_sys])
         simp_all
    moreover have "same_os ?w (snd (build_list path (i + 1) (lst @ [rule_at w path i]) ?w))"
      by (rule Suc.hyps(1) [OF k])
    ultimately have "same_os w (snd (build_list path (i + 1) (lst @ [rule_at w path i]) ?w))"
      by (rule same_os_trans)
    with False Suc.hyps(2) show ?thesis
      by (subst build_list_unfold) simp
  qed
qed

lemma build_list_contiguous:
  assumes "\<forall>j<n. name_at w path (i + j) \<noteq> []"
    and "name_at w path (i + n) = []"
    and "n \<le> heapFree w"
  shows "fst (build_list path i lst w) = lst @ map (rule_at w path) [i..<i + n]"
  using assms
proof (induction n arbitrary: i lst w)
  case 0
  then show ?case by (subst build_list_unfold) simp
next
  case (Suc n)
  let ?e1 = "SysProfileString ''Processes'' (''Process'' @ decimal i @ ''_Name'')"
  let ?e2 = "SysProfileInt ''Processes'' (''Process'' @ decimal i @ ''_Prio'')"
  let ?w = "sys ?e2 (sys ?e1 (w\<lparr>heapFree := heapFree w - 1\<rparr>))"
  from Suc.prems(1) have here: "name_at w path i \<noteq> []" by (metis add.right_neutral zero_less_Suc)
  have later: "\<forall>j<n. name_at ?w path (Suc i + j) \<noteq> []"
  proof (intro allI impI)
    fix j assume "j < n"
    then have "Suc j < Suc n" by simp
    with Suc.prems(1) have "name_at w path (i + Suc j) \<noteq> []" by blast
    then show "name_at ?w path (Suc i + j) \<noteq> []" by simp
  qed
  have stop: "name_at ?w path (Suc i + n) = []" using Suc.prems(2) by simp
  have heap: "n \<le> heapFree ?w" using Suc.prems(3) by simp
  have "fst (build_list path (Suc i) (lst @ [rule_at w path i]) ?w)
        = (lst @ [rule_at w path i]) @ map (rule_at ?w path) [Suc i..<Suc i + n]"
    by (rule Suc.IH [OF later stop heap])
  also have "map (rule_at ?w path) [Suc i..<Suc i + n] = map (rule_at w path) [Suc i..<Suc i + n]"
    by simp
  finally have "fst (build_list path (Suc i) (lst @ [rule_at w path i]) ?w)
        = lst @ map (rule_at w path) (i # [Suc i..<Suc i + n])"
    by simp
  moreover have "[i..<i + Suc n] = i # [Suc i..<Suc i + n]"
    using upt_conv_Cons [of i "i + Suc n"] by simp
  ultimately have rec: "fst (build_list path (Suc i) (lst @ [rule_at w path i]) ?w)
        = lst @ map (rule_at w path) [i..<i + Suc n]"
    by (simp only:)
  from Suc.prems(3) have "heapFree w \<noteq> 0" by simp
  with here rec show ?case
    by (subst build_list_unfold) (simp only: if_False Suc_eq_plus1 [symmetric])
qed

lemma build_list_trace:
  assumes "\<forall>j<n. name_at w path (i + j) \<noteq> []"
    and "name_at w path (i + n) = []"
    and "n \<le> heapFree w"
  shows "trace (snd (build_list path i lst w))
         = trace w @ concat (map rule_queries [i..<i + n])
           @ (if n < heapFree w
              then [SysProfileString ''Processes'' (''Process'' @ decimal (i + n) @ ''_Name'')]
              else [])"
  using assms
proof (induction n arbitrary: i lst w)
  case 0
  then show ?case by (subst build_list_unfold) (simp add: sys_def)
next
  case (Suc n)
  let ?e1 = "SysProfileString ''Processes'' (''Process'' @ decimal i @ ''_Name'')"
  let ?e2 = "SysProfileInt ''Processes'' (''Process'' @ decimal i @ ''_Prio'')"
  let ?w = "sys ?e2 (sys ?e1 (w\<lparr>heapFree := heapFree w - 1\<rparr>))"
  from Suc.prems(1) have here: "name_at w path i \<noteq> []" by (metis add.right_neutral zero_less_Suc)
  have later: "\<forall>j<n. name_at ?w path (Suc i + j) \<noteq> []"
  proof (intro allI impI)
    fix j assume "j < n"
    then have "Suc j < Suc n" by simp
    with Suc.prems(1) have "name_at w path (i + Suc j) \<noteq> []" by blast
    then show "name_at ?w path (Suc i + j) \<noteq> []" by simp
  qed
  have stop: "name_at ?w path (Suc i + n) = []" using Suc.prems(2) by simp
  have heap: "n \<le> heapFree ?w" using Suc.prems(3) by simp
  have less: "(n < heapFree ?w) = (Suc n < heapFree w)" by auto
  have tr: "trace ?w = trace w @ rule_queries i" by (simp add: sys_def rule_queries_def)
  have "trace (snd (build_list path (Suc i) (lst @ [rule_at w path i]) ?w))
        = trace ?w @ concat (map rule_queries [Suc i..<Suc i + n])
          @ (if n < heapFree ?w
             then [SysProfileString ''Processes'' (''Process'' @ decimal (Suc i + n) @ ''_Name'')]
             else [])"
    by (rule Suc.IH [OF later stop heap])
  moreover have "[i..<i + Suc n] = i # [Suc i..<Suc i + n]"
    using upt_conv_Cons [of i "i + Suc n"] by simp
  ultimately have rec: "trace (snd (build_list path (Suc i) (lst @ [rule_at w path i]) ?w))
        = trace w @ concat (map rule_queries [i..<i + Suc n])
          @ (if Suc n < heapFree w
             then [SysProfileString ''Processes'' (''Process'' @ decimal (i + Suc n) @ ''_Name'')]
             else [])"
    by (simp only: less tr) simp
  from Suc.prems(3) have "heapFree w \<noteq> 0" by simp
  with here rec show ?case
    by (subst build_list_unfold) (simp only: if_False Suc_eq_plus1 [symmetric])
qed

subsection \<open>The reload and the whole of \<^verbatim>\<open>Tamer_ReadConfig\<close>\<close>

lemma free_all: "foldl (\<lambda>w el. free w) w xs = w\<lparr>heapFree := heapFree w + length xs\<rparr>"
  by (induction xs arbitrary: w) (simp_all add: free_def)

lemma same_os_released: "same_os w (released c w)"
  unfolding released_def
  by (rule same_os_trans [OF _ same_os_heap],
      rule same_os_trans [OF same_os_sys same_os_trans [OF same_os_sys same_os_sys]])
     simp_all

lemma reload_unfold:
  "reload c crc w =
     (c\<lparr>serviceDispalyName :=
          take 254 (case profile_text w (filePath c) ''Service'' ''DisplayName'' of
                      None \<Rightarrow> SRVC_TAME_SERVICE_DISPLAY_NAME | Some s \<Rightarrow> s),
        serviceDescription :=
          take 254 (case profile_text w (filePath c) ''Service'' ''Description'' of
                      None \<Rightarrow> SRVC_TAME_SERVICE_DESCRIPTION | Some s \<Rightarrow> s),
        interval :=
          (case profile_number w (filePath c) ''Service'' ''Interval'' of
             None \<Rightarrow> SRVC_TAME_INTERVAL | Some v \<Rightarrow> v),
        crc32 := crc,
        procList := fst (build_list (filePath c) 1 [] (released c w))\<rparr>,
      snd (build_list (filePath c) 1 [] (released c w)))"
  by (simp add: reload_def released_def free_all GetPrivateProfileString_def
        GetPrivateProfileInt_def Let_def split_beta sys_def profile_text_def
        profile_number_def fopen_def)

lemma same_os_reload: "same_os w (snd (reload c crc w))"
  unfolding reload_unfold snd_conv
  by (rule same_os_trans [OF same_os_released build_list_same_os])

lemma put_config_same: "config g = Some c \<Longrightarrow> g\<lparr>config := Some c\<rparr> = g"
  by (cases g) simp

lemma ReadConfig_steps:
  assumes "first_run g w = Some (c0, w0)" and "figure_path (serviceMode g) c0 w0 = Some c"
  shows "Tamer_ReadConfig g w =
     (if Tamer_GetFileCRC (filePath c) w0 = 0 then (0, g\<lparr>config := Some c\<rparr>, w0)
      else if Tamer_GetFileCRC (filePath c) w0 \<noteq> crc32 c then
        (LL_COUNT (procList (fst (reload c (Tamer_GetFileCRC (filePath c) w0) w0))),
         g\<lparr>config := Some (fst (reload c (Tamer_GetFileCRC (filePath c) w0) w0))\<rparr>,
         snd (reload c (Tamer_GetFileCRC (filePath c) w0) w0))
      else (LL_COUNT (procList c), g\<lparr>config := Some c\<rparr>, w0))"
  using assms by (simp add: Tamer_ReadConfig_def Let_def split_beta)

lemma ReadConfig_loaded:
  assumes "config g = Some c" and "filePath c \<noteq> []"
  shows "Tamer_ReadConfig g w =
     (if Tamer_GetFileCRC (filePath c) w = 0 then (0, g, w)
      else if Tamer_GetFileCRC (filePath c) w \<noteq> crc32 c then
        (LL_COUNT (procList (fst (reload c (Tamer_GetFileCRC (filePath c) w) w))),
         g\<lparr>config := Some (fst (reload c (Tamer_GetFileCRC (filePath c) w) w))\<rparr>,
         snd (reload c (Tamer_GetFileCRC (filePath c) w) w))
      else (LL_COUNT (procList c), g, w))"
  using assms
  by (simp add: Tamer_ReadConfig_def first_run_def figure_path_def Let_def split_beta
        put_config_same)

lemma first_run_same_os: "first_run g w = Some (c0, w0) \<Longrightarrow> same_os w w0"
  by (auto simp add: first_run_def malloc_def same_os_refl same_os_heap
        split: option.splits if_splits)

lemma ReadConfig_same_os: "same_os w (snd (snd (Tamer_ReadConfig g w)))"
proof (cases "first_run g w")
  case None
  then show ?thesis by (simp add: Tamer_ReadConfig_def same_os_refl)
next
  case (Some a)
  obtain c0 w0 where a: "a = (c0, w0)" by (cases a)
  with Some have w0: "same_os w w0" by (simp add: first_run_same_os)
  show ?thesis
  proof (cases "figure_path (serviceMode g) c0 w0")
    case None
    with Some a w0 show ?thesis by (simp add: Tamer_ReadConfig_def)
  next
    case (Some c1)
    have "same_os w (snd (reload c1 crc w0))" for crc
      by (rule same_os_trans [OF w0 same_os_reload])
    with \<open>first_run g w = Some a\<close> a Some w0 show ?thesis
      by (simp add: Tamer_ReadConfig_def Let_def split_beta)
  qed
qed

lemma ReadConfig_frame:
  assumes "Tamer_ReadConfig g w = (n, g', w')"
  shows "same_os w w'"
    and "g' = g\<lparr>config := config g'\<rparr>"
    and "config g \<noteq> None \<Longrightarrow> config g' \<noteq> None"
    and "n \<noteq> 0 \<Longrightarrow> \<exists>c. config g' = Some c \<and> n = int (length (procList c))"
proof -
  show "same_os w w'"
    using ReadConfig_same_os [of w g] assms by simp
  show "g' = g\<lparr>config := config g'\<rparr>"
    using assms
    by (auto simp add: Tamer_ReadConfig_def Let_def split: option.splits if_splits prod.splits)
  show "config g \<noteq> None \<Longrightarrow> config g' \<noteq> None"
    using assms
    by (auto simp add: Tamer_ReadConfig_def first_run_def Let_def
          split: option.splits if_splits prod.splits)
  show "n \<noteq> 0 \<Longrightarrow> \<exists>c. config g' = Some c \<and> n = int (length (procList c))"
    using assms
    by (auto simp add: Tamer_ReadConfig_def Let_def LL_COUNT_def
          split: option.splits if_splits prod.splits)
qed

lemma trace_released:
  "trace (released c w) = trace w @ [SysProfileString ''Service'' ''DisplayName'',
         SysProfileString ''Service'' ''Description'', SysProfileInt ''Service'' ''Interval'']"
  by (simp add: released_def sys_def)

lemma first_run_trace: "first_run g w = Some (c0, w0) \<Longrightarrow> trace w0 = trace w"
  by (auto simp add: first_run_def malloc_def split: option.splits if_splits)

subsection \<open>One call of \<^verbatim>\<open>Tamer_SetProcessPriority\<close>\<close>

lemma find_other:
  "\<forall>q \<in> set qs. th32ProcessID q \<noteq> pid \<Longrightarrow>
   find (\<lambda>q. th32ProcessID q = pid) (qs @ rs) = find (\<lambda>q. th32ProcessID q = pid) rs"
  by (induction qs) simp_all

lemma map_other:
  "\<forall>q \<in> set qs. th32ProcessID q \<noteq> pid \<Longrightarrow>
   map (\<lambda>q. if th32ProcessID q = pid then f q else q) qs = qs"
  by (induction qs) simp_all

lemma pid_tamed [simp]: "th32ProcessID (tamed proc p) = th32ProcessID p"
  by (simp add: tamed_def)

lemma name_tamed [simp]: "szExeFile (tamed proc p) = szExeFile p"
  by (simp add: tamed_def)

lemma openable_tamed [simp]: "openable (tamed proc p) = openable p"
  by (simp add: tamed_def)

lemma visit_entry_here:
  assumes "\<forall>q \<in> set qs. th32ProcessID q \<noteq> th32ProcessID p"
    and "\<forall>q \<in> set rs. th32ProcessID q \<noteq> th32ProcessID p"
  shows "visit_entry proc (th32ProcessID p, szExeFile p) (w\<lparr>procs := qs @ p # rs\<rparr>)
         = w\<lparr>procs := qs @ tamed proc p # rs, trace := trace w @ calls_for proc p\<rparr>"
proof -
  have f: "find (\<lambda>q. th32ProcessID q = th32ProcessID p) (qs @ p # rs) = Some p"
    using assms(1) by (simp add: find_other)
  have same: "priorityClass p = IDLE_PRIORITY_CLASS \<Longrightarrow> p\<lparr>priorityClass := IDLE_PRIORITY_CLASS\<rparr> = p"
    by (cases p) simp
  show ?thesis
  proof (cases "stricmp (szExeFile p) (procName proc) = 0")
    case False
    then show ?thesis
      by (simp add: visit_entry_def tamed_def calls_for_def)
  next
    case True
    show ?thesis
    proof (cases "openable p")
      case False
      with True show ?thesis
        by (simp add: visit_entry_def tamed_def calls_for_def OpenProcess_def f sys_def)
    next
      case op: True
      show ?thesis
      proof (cases "priorityClass p = IDLE_PRIORITY_CLASS")
        case True
        with op \<open>stricmp (szExeFile p) (procName proc) = 0\<close> show ?thesis
          by (simp add: visit_entry_def tamed_def calls_for_def OpenProcess_def
                GetPriorityClass_def f sys_def same)
      next
        case False
        with op \<open>stricmp (szExeFile p) (procName proc) = 0\<close> show ?thesis
          by (simp add: visit_entry_def tamed_def calls_for_def OpenProcess_def
                GetPriorityClass_def SetPriorityClass_def f sys_def
                map_other [OF assms(1)] map_other [OF assms(2)])
      qed
    qed
  qed
qed

lemma enum_loop_char:
  assumes "distinct (map th32ProcessID (ps1 @ ps2))"
  shows "enum_loop proc (map (\<lambda>p. (th32ProcessID p, szExeFile p)) ps2)
           (w\<lparr>procs := map (tamed proc) ps1 @ ps2\<rparr>)
         = w\<lparr>procs := map (tamed proc) (ps1 @ ps2),
              trace := trace w @ concat (map (calls_for proc) ps2)\<rparr>"
  using assms
proof (induction ps2 arbitrary: ps1 w)
  case Nil
  then show ?case by simp
next
  case (Cons p rest)
  let ?w = "w\<lparr>trace := trace w @ calls_for proc p\<rparr>"
  have before: "\<forall>q \<in> set (map (tamed proc) ps1). th32ProcessID q \<noteq> th32ProcessID p"
    using Cons.prems by (auto simp add: image_iff)
  have after: "\<forall>q \<in> set rest. th32ProcessID q \<noteq> th32ProcessID p"
    using Cons.prems by (auto simp add: image_iff)
  have v: "visit_entry proc (th32ProcessID p, szExeFile p)
             (w\<lparr>procs := map (tamed proc) ps1 @ p # rest\<rparr>)
           = ?w\<lparr>procs := map (tamed proc) (ps1 @ [p]) @ rest\<rparr>"
    by (simp add: visit_entry_here [OF before after])
  have d: "distinct (map th32ProcessID ((ps1 @ [p]) @ rest))" using Cons.prems by simp
  show ?case
    using Cons.IH [OF d, of ?w] by (simp add: v)
qed

lemma SetProcessPriority_char:
  assumes "distinct (map th32ProcessID (procs w))"
  shows "Tamer_SetProcessPriority proc w
         = w\<lparr>procs := map (tamed proc) (procs w),
              trace := trace w @ SysSnapshot # concat (map (calls_for proc) (procs w))\<rparr>"
proof -
  have "enum_loop proc (map (\<lambda>p. (th32ProcessID p, szExeFile p)) (procs w))
          ((sys SysSnapshot w)\<lparr>procs := map (tamed proc) [] @ procs w\<rparr>)
        = (sys SysSnapshot w)\<lparr>procs := map (tamed proc) ([] @ procs w),
             trace := trace (sys SysSnapshot w) @ concat (map (calls_for proc) (procs w))\<rparr>"
    by (rule enum_loop_char) (simp add: assms)
  then show ?thesis
    by (simp add: Tamer_SetProcessPriority_def CreateToolhelp32Snapshot_def sys_def)
qed

lemma visit_entry_obs:
  "open_attempts (trace (visit_entry proc e w))
     = open_attempts (trace w) @ (if stricmp (snd e) (procName proc) = 0 then [fst e] else [])"
  "snapshots (trace (visit_entry proc e w)) = snapshots (trace w)"
  "sleeps (trace (visit_entry proc e w)) = sleeps (trace w)"
  "map (\<lambda>p. (th32ProcessID p, szExeFile p)) (procs (visit_entry proc e w))
     = map (\<lambda>p. (th32ProcessID p, szExeFile p)) (procs w)"
  by (simp_all add: visit_entry_def OpenProcess_def GetPriorityClass_def SetPriorityClass_def
        sys_def open_attempts_append snapshots_append sleeps_append comp_def
        split: option.splits cong: map_cong)

lemma enum_loop_obs:
  "open_attempts (trace (enum_loop proc es w))
     = open_attempts (trace w) @ map fst (filter (\<lambda>e. stricmp (snd e) (procName proc) = 0) es)"
  "snapshots (trace (enum_loop proc es w)) = snapshots (trace w)"
  "sleeps (trace (enum_loop proc es w)) = sleeps (trace w)"
  "map (\<lambda>p. (th32ProcessID p, szExeFile p)) (procs (enum_loop proc es w))
     = map (\<lambda>p. (th32ProcessID p, szExeFile p)) (procs w)"
  by (induction es arbitrary: w; simp add: visit_entry_obs)+

lemma matching_entries:
  "map fst (filter (\<lambda>e. stricmp (snd e) name = 0) (map (\<lambda>p. (th32ProcessID p, szExeFile p)) ps))
   = map th32ProcessID (filter (\<lambda>p. stricmp (szExeFile p) name = 0) ps)"
  by (induction ps) simp_all

lemma SetProcessPriority_obs:
  "open_attempts (trace (Tamer_SetProcessPriority proc w))
     = open_attempts (trace w)
       @ map th32ProcessID (filter (\<lambda>p. stricmp (szExeFile p) (procName proc) = 0) (procs w))"
  "snapshots (trace (Tamer_SetProcessPriority proc w)) = Suc (snapshots (trace w))"
  "sleeps (trace (Tamer_SetProcessPriority proc w)) = sleeps (trace w)"
  "map (\<lambda>p. (th32ProcessID p, szExeFile p)) (procs (Tamer_SetProcessPriority proc w))
     = map (\<lambda>p. (th32ProcessID p, szExeFile p)) (procs w)"
  by (simp_all add: Tamer_SetProcessPriority_def CreateToolhelp32Snapshot_def enum_loop_obs
        matching_entries sys_def open_attempts_append snapshots_append sleeps_append)


subsection \<open>One call of \<^verbatim>\<open>Tamer_ServiceProcess\<close>\<close>


lemma ServiceProcess_pass:
  assumes "Tamer_ReadConfig g w = (n, g1, w1)" and "n \<noteq> 0"
    and "config g1 = Some c" and "procList c \<noteq> []"
  shows "Tamer_ServiceProcess g w
         = (True, g1, foldl (\<lambda>w el. Tamer_SetProcessPriority el w) w1 (procList c))"
  using assms by (simp add: Tamer_ServiceProcess_def)


subsection \<open>One pass over the list\<close>

lemma pass_char:
  assumes "distinct (map th32ProcessID (procs w))"
  shows "foldl (\<lambda>w el. Tamer_SetProcessPriority el w) w rules
         = w\<lparr>procs := foldl (\<lambda>ps r. map (tamed r) ps) (procs w) rules,
              trace := trace w @ pass_calls rules (procs w)\<rparr>"
  using assms
proof (induction rules arbitrary: w)
  case Nil
  then show ?case by simp
next
  case (Cons r rules)
  let ?w = "w\<lparr>procs := map (tamed r) (procs w),
              trace := trace w @ SysSnapshot # concat (map (calls_for r) (procs w))\<rparr>"
  have d: "distinct (map th32ProcessID (procs ?w))"
    using Cons.prems by (simp add: comp_def)
  show ?case
    by (simp add: SetProcessPriority_char [OF Cons.prems] Cons.IH [OF d])
qed

lemma calls_for_opens:
  "open_attempts (calls_for r p)
   = (if stricmp (szExeFile p) (procName r) = 0 then [th32ProcessID p] else [])"
  by (simp add: calls_for_def)

lemma opens_of_rule:
  "open_attempts (concat (map (calls_for r) ps))
   = map th32ProcessID (filter (\<lambda>p. stricmp (szExeFile p) (procName r) = 0) ps)"
  by (induction ps) (simp_all add: open_attempts_append calls_for_opens)

lemma filter_tamed:
  "map th32ProcessID (filter (\<lambda>p. stricmp (szExeFile p) name = 0) (map (tamed r) ps))
   = map th32ProcessID (filter (\<lambda>p. stricmp (szExeFile p) name = 0) ps)"
  by (induction ps) simp_all

lemma pass_calls_opens:
  "open_attempts (pass_calls rules ps)
   = concat (map (\<lambda>r. map th32ProcessID
                         (filter (\<lambda>p. stricmp (szExeFile p) (procName r) = 0) ps)) rules)"
proof (induction rules arbitrary: ps)
  case Nil
  then show ?case by simp
next
  case (Cons r rules)
  have "concat (map (\<lambda>r. map th32ProcessID
                         (filter (\<lambda>p. stricmp (szExeFile p) (procName r) = 0) (map (tamed r0) ps))) rules)
      = concat (map (\<lambda>r. map th32ProcessID
                         (filter (\<lambda>p. stricmp (szExeFile p) (procName r) = 0) ps)) rules)" for r0
    by (simp add: filter_tamed)
  then show ?case
    by (simp add: open_attempts_append opens_of_rule Cons.IH)
qed

lemma tamed_all:
  "foldl (\<lambda>ps r. map (tamed r) ps) ps rules = map (\<lambda>p. foldl (\<lambda>p r. tamed r p) p rules) ps"
  by (induction rules arbitrary: ps) (simp_all add: comp_def)

lemma tamed_fold: "foldl (\<lambda>p r. tamed r p) p rules = tamed_by rules p"
proof (induction rules arbitrary: p)
  case Nil
  then show ?case by (simp add: tamed_by_def)
next
  case (Cons a rules)
  show ?case
  proof (cases "openable p \<and> stricmp (szExeFile p) (procName a) = 0")
    case True
    then have t: "tamed a p = p\<lparr>priorityClass := IDLE_PRIORITY_CLASS\<rparr>" by (simp add: tamed_def)
    have "tamed_by rules (p\<lparr>priorityClass := IDLE_PRIORITY_CLASS\<rparr>)
          = p\<lparr>priorityClass := IDLE_PRIORITY_CLASS\<rparr>"
      by (simp add: tamed_by_def)
    moreover have "tamed_by (a # rules) p = p\<lparr>priorityClass := IDLE_PRIORITY_CLASS\<rparr>"
      using True by (simp add: tamed_by_def)
    ultimately show ?thesis by (simp add: Cons.IH t)
  next
    case False
    then have t: "tamed a p = p" by (auto simp add: tamed_def)
    have "tamed_by (a # rules) p = tamed_by rules p"
      using False by (auto simp add: tamed_by_def)
    then show ?thesis by (simp add: Cons.IH t)
  qed
qed

lemma pass_effect:
  assumes "distinct (map th32ProcessID (procs w))"
  shows "foldl (\<lambda>w el. Tamer_SetProcessPriority el w) w rules
         = w\<lparr>procs := map (tamed_by rules) (procs w),
              trace := trace w @ pass_calls rules (procs w)\<rparr>"
  unfolding pass_char [OF assms] tamed_all tamed_fold ..

subsection \<open>The loops\<close>








subsection \<open>A failing cycle, a failing start and a stop request\<close>













section \<open>Facts about the concrete host\<close>

lemma crc_ini_gap: "Tamer_CRC2 (raw ini_gap) = 0x17AD5D31"
  by (simp add: ini_gap_def crc_eval)

lemma crc_ini_blank: "Tamer_CRC2 (raw ini_blank) = 0x3E45C4CC"
  by (simp add: ini_blank_def crc_eval)

lemma crc_ini_twice: "Tamer_CRC2 (raw ini_twice) = 0x3C41C34A"
  by (simp add: ini_twice_def crc_eval)

lemma GetFileCRC_host:
  "Tamer_GetFileCRC ini_path (host [(ini_path, f)]) = Tamer_CRC2 (raw f)"
  by (simp add: Tamer_GetFileCRC_def fopen_def host_def malloc_def)

lemma GetFileCRC_missing: "Tamer_GetFileCRC ini_path (host []) = 0"
  by (simp add: Tamer_GetFileCRC_def fopen_def host_def)

lemma ini_path_nonempty: "ini_path \<noteq> []"
  by (simp add: ini_path_def)

lemmas name_eval = name_at_def prio_at_def rule_at_def profile_text_def profile_number_def
  fopen_def host_def decimal.simps

lemma gap_1: "rule_at (host [(ini_path, ini_gap)]) ini_path 1 = rule_foo"
  by (simp add: name_eval ini_gap_def rule_foo_def)

lemma gap_2: "name_at (host [(ini_path, ini_gap)]) ini_path 2 = []"
  by (simp add: name_eval ini_gap_def)

lemma gap_3: "name_at (host [(ini_path, ini_gap)]) ini_path 3 = ''baz.exe''"
  by (simp add: name_eval ini_gap_def)

lemma first_read:
  "Tamer_ReadConfig (service_globals None) (host [(ini_path, ini_gap)])
   = (1, service_globals (Some loaded_gap),
      (host [(ini_path, ini_gap)])
        \<lparr>heapFree := 14,
         trace := [SysProfileString ''Service'' ''DisplayName'',
                   SysProfileString ''Service'' ''Description'',
                   SysProfileInt ''Service'' ''Interval'',
                   SysProfileString ''Processes'' ''Process1_Name'',
                   SysProfileInt ''Processes'' ''Process1_Prio'',
                   SysProfileString ''Processes'' ''Process2_Name'']\<rparr>)"
proof -
  let ?w = "(host [(ini_path, ini_gap)])\<lparr>heapFree := 15\<rparr>"
  let ?c = "Tamer_Config0\<lparr>filePath := ini_path\<rparr>"
  have a: "first_run (service_globals None) (host [(ini_path, ini_gap)]) = Some (Tamer_Config0, ?w)"
    by (simp add: first_run_def service_globals_def gTamer0_def malloc_def host_def)
  have b: "figure_path (serviceMode (service_globals None)) Tamer_Config0 ?w = Some ?c"
    by (simp add: figure_path_def service_globals_def Tamer_Config0_def GetWindowsDirectory_def
          directory_query_def host_def MAX_PATH_def ini_path_def SRVC_TAME_INI_FILE_def)
  have c: "Tamer_GetFileCRC ini_path ?w = 0x17AD5D31"
    by (simp add: Tamer_GetFileCRC_def fopen_def host_def malloc_def crc_ini_gap)
  have d: "reload ?c 0x17AD5D31 ?w = (loaded_gap,
      (host [(ini_path, ini_gap)])
        \<lparr>heapFree := 14,
         trace := [SysProfileString ''Service'' ''DisplayName'',
                   SysProfileString ''Service'' ''Description'',
                   SysProfileInt ''Service'' ''Interval'',
                   SysProfileString ''Processes'' ''Process1_Name'',
                   SysProfileInt ''Processes'' ''Process1_Prio'',
                   SysProfileString ''Processes'' ''Process2_Name'']\<rparr>)"
    by (simp add: reload_unfold released_def build_list_unfold name_eval sys_def ini_gap_def
          loaded_gap_def rule_foo_def Tamer_Config0_def
          SRVC_TAME_SERVICE_DISPLAY_NAME_def SRVC_TAME_SERVICE_DESCRIPTION_def)
  have e: "(service_globals None)\<lparr>config := Some loaded_gap\<rparr> = service_globals (Some loaded_gap)"
    by (simp add: service_globals_def)
  have f: "LL_COUNT (procList loaded_gap) = 1" by (simp add: loaded_gap_def LL_COUNT_def)
  have g: "crc32 ?c = 0" by (simp add: Tamer_Config0_def)
  show ?thesis
    by (simp add: Tamer_ReadConfig_def a b c d e f g)
qed

lemma blank_1: "name_at (host [(ini_path, ini_blank)]) ini_path 1 = []"
  by (simp add: name_eval ini_blank_def)

lemma host_distinct: "distinct (map th32ProcessID (procs (host fs)))"
  by (simp add: host_def host_procs_def)

lemma host_fields: "procs (host fs) = host_procs" "trace (host fs) = []"
  by (simp_all add: host_def)

lemma tamed_foo:
  "map (tamed rule_foo) host_procs
   = [\<lparr>th32ProcessID = 4, szExeFile = ''foo.exe'', priorityClass = 0x40, openable = True\<rparr>,
      \<lparr>th32ProcessID = 8, szExeFile = ''FOO.EXE'', priorityClass = 0x20, openable = False\<rparr>,
      \<lparr>th32ProcessID = 12, szExeFile = ''bar.exe'', priorityClass = 0x20, openable = True\<rparr>,
      \<lparr>th32ProcessID = 16, szExeFile = ''Foo.exe'', priorityClass = 0x40, openable = True\<rparr>]"
  by (simp add: host_procs_def tamed_def rule_foo_def tolower_def IDLE_PRIORITY_CLASS_def)

lemma calls_foo:
  "concat (map (calls_for rule_foo) host_procs)
   = [SysOpenProcess 4, SysGetPriorityClass 4, SysSetPriorityClass 4 0x40,
      SysOpenProcess 8,
      SysOpenProcess 16, SysGetPriorityClass 16, SysSetPriorityClass 16 0x40]"
  by (simp add: host_procs_def calls_for_def rule_foo_def tolower_def IDLE_PRIORITY_CLASS_def)

lemma matching_foo:
  "map th32ProcessID (filter (\<lambda>p. stricmp (szExeFile p) ''foo.exe'' = 0) host_procs) = [4, 8, 16]"
  "map th32ProcessID (filter (\<lambda>p. stricmp (szExeFile p) ''FOO.EXE'' = 0) host_procs) = [4, 8, 16]"
  by (simp_all add: host_procs_def tolower_def)

lemma twice_names:
  "rule_at (host [(ini_path, ini_twice)]) ini_path 1 = \<lparr>procName = ''foo.exe'', priority = 0\<rparr>"
  "rule_at (host [(ini_path, ini_twice)]) ini_path 2 = \<lparr>procName = ''FOO.EXE'', priority = 0\<rparr>"
  "name_at (host [(ini_path, ini_twice)]) ini_path 3 = []"
  by (simp_all add: name_eval ini_twice_def)

lemma loaded_fields:
  "filePath loaded_gap = ini_path" "crc32 loaded_gap = 0x17AD5D31" "procList loaded_gap = [rule_foo]"
  "filePath loaded_twice = ini_path" "crc32 loaded_twice = 0x3C41C34A"
  "procList loaded_twice = [\<lparr>procName = ''foo.exe'', priority = 0\<rparr>,
                            \<lparr>procName = ''FOO.EXE'', priority = 0\<rparr>]"
  by (simp_all add: loaded_gap_def loaded_twice_def)


lemma rules_of_service [simp]: "rules_of (service_globals (Some c)) = procList c"
  by (simp add: rules_of_def service_globals_def)



lemma host_start:
  "first_run (service_globals None) (host fs) = Some (Tamer_Config0, (host fs)\<lparr>heapFree := 15\<rparr>)"
  "figure_path (serviceMode (service_globals None)) Tamer_Config0 ((host fs)\<lparr>heapFree := 15\<rparr>)
     = Some (Tamer_Config0\<lparr>filePath := ini_path\<rparr>)"
  by (simp_all add: first_run_def service_globals_def gTamer0_def malloc_def host_def
        figure_path_def Tamer_Config0_def GetWindowsDirectory_def directory_query_def
        MAX_PATH_def ini_path_def SRVC_TAME_INI_FILE_def)

lemma GetFileCRC_host_started:
  "Tamer_GetFileCRC ini_path ((host [(ini_path, f)])\<lparr>heapFree := 15\<rparr>) = Tamer_CRC2 (raw f)"
  by (simp add: Tamer_GetFileCRC_def fopen_def host_def malloc_def)

lemma first_read_twice:
  "Tamer_ReadConfig (service_globals None) (host [(ini_path, ini_twice)])
   = (2, service_globals (Some loaded_twice),
      (host [(ini_path, ini_twice)])
        \<lparr>heapFree := 13,
         trace := [SysProfileString ''Service'' ''DisplayName'',
                   SysProfileString ''Service'' ''Description'',
                   SysProfileInt ''Service'' ''Interval'',
                   SysProfileString ''Processes'' ''Process1_Name'',
                   SysProfileInt ''Processes'' ''Process1_Prio'',
                   SysProfileString ''Processes'' ''Process2_Name'',
                   SysProfileInt ''Processes'' ''Process2_Prio'',
                   SysProfileString ''Processes'' ''Process3_Name'']\<rparr>)"
proof -
  let ?v = "(host [(ini_path, ini_twice)])\<lparr>heapFree := 15\<rparr>"
  let ?c = "Tamer_Config0\<lparr>filePath := ini_path\<rparr>"
  have c: "Tamer_GetFileCRC ini_path ?v = 0x3C41C34A"
    by (simp add: GetFileCRC_host_started crc_ini_twice)
  have d: "reload ?c 0x3C41C34A ?v = (loaded_twice,
      (host [(ini_path, ini_twice)])
        \<lparr>heapFree := 13,
         trace := [SysProfileString ''Service'' ''DisplayName'',
                   SysProfileString ''Service'' ''Description'',
                   SysProfileInt ''Service'' ''Interval'',
                   SysProfileString ''Processes'' ''Process1_Name'',
                   SysProfileInt ''Processes'' ''Process1_Prio'',
                   SysProfileString ''Processes'' ''Process2_Name'',
                   SysProfileInt ''Processes'' ''Process2_Prio'',
                   SysProfileString ''Processes'' ''Process3_Name'']\<rparr>)"
    by (simp add: reload_unfold released_def build_list_unfold name_eval sys_def ini_twice_def
          loaded_twice_def Tamer_Config0_def
          SRVC_TAME_SERVICE_DISPLAY_NAME_def SRVC_TAME_SERVICE_DESCRIPTION_def)
  have e: "(service_globals None)\<lparr>config := Some loaded_twice\<rparr> = service_globals (Some loaded_twice)"
    by (simp add: service_globals_def)
  have f: "LL_COUNT (procList loaded_twice) = 2" by (simp add: loaded_twice_def LL_COUNT_def)
  have g: "crc32 ?c = 0" by (simp add: Tamer_Config0_def)
  show ?thesis
    by (simp add: Tamer_ReadConfig_def host_start c d e f g)
qed

lemma noop_read_twice:
  "Tamer_ReadConfig (service_globals (Some loaded_twice)) (host [(ini_path, ini_twice)])
   = (2, service_globals (Some loaded_twice), host [(ini_path, ini_twice)])"
proof -
  have 1: "config (service_globals (Some loaded_twice)) = Some loaded_twice"
    by (simp add: service_globals_def)
  have 2: "filePath loaded_twice \<noteq> []" by (simp add: loaded_fields ini_path_nonempty)
  show ?thesis
    by (simp add: ReadConfig_loaded [OF 1 2] loaded_fields GetFileCRC_host crc_ini_twice LL_COUNT_def)
qed

lemma loaded_start:
  "first_run (service_globals (Some c)) w = Some (c, w)"
  "filePath c \<noteq> [] \<Longrightarrow> figure_path mode c w = Some c"
  by (simp_all add: first_run_def service_globals_def figure_path_def)

lemma tamed_twice:
  "map (tamed_by (procList loaded_twice)) host_procs
   = [\<lparr>th32ProcessID = 4, szExeFile = ''foo.exe'', priorityClass = 0x40, openable = True\<rparr>,
      \<lparr>th32ProcessID = 8, szExeFile = ''FOO.EXE'', priorityClass = 0x20, openable = False\<rparr>,
      \<lparr>th32ProcessID = 12, szExeFile = ''bar.exe'', priorityClass = 0x20, openable = True\<rparr>,
      \<lparr>th32ProcessID = 16, szExeFile = ''Foo.exe'', priorityClass = 0x40, openable = True\<rparr>]"
  by (simp add: loaded_fields host_procs_def tamed_by_def tolower_def IDLE_PRIORITY_CLASS_def)

lemma calls_twice:
  "pass_calls (procList loaded_twice) host_procs
   = [SysSnapshot,
      SysOpenProcess 4, SysGetPriorityClass 4, SysSetPriorityClass 4 0x40,
      SysOpenProcess 8,
      SysOpenProcess 16, SysGetPriorityClass 16, SysSetPriorityClass 16 0x40,
      SysSnapshot,
      SysOpenProcess 4, SysGetPriorityClass 4,
      SysOpenProcess 8,
      SysOpenProcess 16, SysGetPriorityClass 16]"
  by (simp add: loaded_fields host_procs_def calls_for_def tamed_def tolower_def
        IDLE_PRIORITY_CLASS_def)







section \<open>The claims\<close>

text \<open>
  C1 (as the code has it). When the checksum has changed and \<^verbatim>\<open>Process1_Name\<close> is
  absent or empty, \<^verbatim>\<open>Tamer_ReadConfig\<close> returns 0, the stored list is empty and the
  stored checksum is the one of the new content: the previous rules are released
  and the checksum is overwritten before the new list is built.
\<close>

theorem changed_source_without_rules_clears_store:
  assumes "config g = Some c" and "filePath c \<noteq> []"
    and "Tamer_GetFileCRC (filePath c) w \<noteq> 0"
    and "Tamer_GetFileCRC (filePath c) w \<noteq> crc32 c"
    and "name_at w (filePath c) 1 = []"
  shows "fst (Tamer_ReadConfig g w) = 0
         \<and> map_option procList (config (fst (snd (Tamer_ReadConfig g w)))) = Some []
         \<and> map_option crc32 (config (fst (snd (Tamer_ReadConfig g w))))
             = Some (Tamer_GetFileCRC (filePath c) w)"
proof -
  let ?w = "released c w"
  have none: "\<forall>j<0. name_at ?w (filePath c) (1 + j) \<noteq> []" by simp
  have stop: "name_at ?w (filePath c) (1 + 0) = []"
    using assms(5) by (simp add: released_def del: One_nat_def)
  have "fst (build_list (filePath c) 1 [] ?w) = [] @ map (rule_at ?w (filePath c)) [1..<1 + 0]"
    by (rule build_list_contiguous [OF none stop]) simp
  then have lst: "fst (build_list (filePath c) 1 [] ?w) = []" by simp
  show ?thesis
    using assms(3,4) lst
    by (simp add: ReadConfig_loaded [OF assms(1,2)] reload_unfold LL_COUNT_def)
qed

theorem changed_source_without_rules_clears_store_witness:
  "fst (Tamer_ReadConfig (service_globals (Some loaded_gap)) (host [(ini_path, ini_blank)])) = 0
   \<and> map_option procList (config (fst (snd (Tamer_ReadConfig
        (service_globals (Some loaded_gap)) (host [(ini_path, ini_blank)]))))) = Some []
   \<and> map_option crc32 (config (fst (snd (Tamer_ReadConfig
        (service_globals (Some loaded_gap)) (host [(ini_path, ini_blank)]))))) = Some 0x3E45C4CC"
proof -
  let ?g = "service_globals (Some loaded_gap)"
  let ?w = "host [(ini_path, ini_blank)]"
  have 1: "config ?g = Some loaded_gap" by (simp add: service_globals_def)
  have 2: "filePath loaded_gap \<noteq> []" by (simp add: loaded_gap_def ini_path_nonempty)
  have crc: "Tamer_GetFileCRC (filePath loaded_gap) ?w = 0x3E45C4CC"
    by (simp add: loaded_gap_def GetFileCRC_host crc_ini_blank)
  have 3: "Tamer_GetFileCRC (filePath loaded_gap) ?w \<noteq> 0" by (simp add: crc)
  have 4: "Tamer_GetFileCRC (filePath loaded_gap) ?w \<noteq> crc32 loaded_gap"
    by (simp add: crc) (simp add: loaded_gap_def)
  have 5: "name_at ?w (filePath loaded_gap) 1 = []"
    by (simp add: loaded_gap_def blank_1 del: One_nat_def)
  from changed_source_without_rules_clears_store [OF 1 2 3 4 5] show ?thesis
    by (simp add: crc)
qed

text \<open>
  C1 as stated fails: on the concrete host the service first loads the file with
  one rule; the file is then edited down to its section header; the next
  \<^verbatim>\<open>Tamer_ReadConfig\<close> returns 0 and the store no longer holds the rule nor the old
  checksum.
\<close>

theorem previous_rules_do_not_survive_counterexample:
  "Tamer_ReadConfig (service_globals None) (host [(ini_path, ini_gap)])
   = (1, service_globals (Some loaded_gap),
      (host [(ini_path, ini_gap)])
        \<lparr>heapFree := 14,
         trace := [SysProfileString ''Service'' ''DisplayName'',
                   SysProfileString ''Service'' ''Description'',
                   SysProfileInt ''Service'' ''Interval'',
                   SysProfileString ''Processes'' ''Process1_Name'',
                   SysProfileInt ''Processes'' ''Process1_Prio'',
                   SysProfileString ''Processes'' ''Process2_Name'']\<rparr>)
   \<and> procList loaded_gap = [rule_foo]
   \<and> crc32 loaded_gap = 0x17AD5D31
   \<and> fst (Tamer_ReadConfig (service_globals (Some loaded_gap)) (host [(ini_path, ini_blank)])) = 0
   \<and> config (fst (snd (Tamer_ReadConfig (service_globals (Some loaded_gap))
                          (host [(ini_path, ini_blank)]))))
       = Some (loaded_gap\<lparr>crc32 := 0x3E45C4CC, procList := []\<rparr>)"
proof -
  let ?g = "service_globals (Some loaded_gap)"
  let ?w = "host [(ini_path, ini_blank)]"
  have 1: "config ?g = Some loaded_gap" by (simp add: service_globals_def)
  have 2: "filePath loaded_gap \<noteq> []" by (simp add: loaded_gap_def ini_path_nonempty)
  have crc: "Tamer_GetFileCRC (filePath loaded_gap) ?w = 0x3E45C4CC"
    by (simp add: loaded_gap_def GetFileCRC_host crc_ini_blank)
  have differs: "(0x3E45C4CC :: uint32_t) \<noteq> crc32 loaded_gap" by (simp add: loaded_gap_def)
  have path: "filePath loaded_gap = ini_path" by (simp add: loaded_gap_def)
  have none: "name_at (released loaded_gap ?w) ini_path 1 = []"
    by (simp add: released_def blank_1 del: One_nat_def)
  have lst: "fst (build_list (filePath loaded_gap) 1 [] (released loaded_gap ?w)) = []"
    unfolding path by (subst build_list_unfold) (simp add: none del: One_nat_def)
  have t1: "profile_text ?w (filePath loaded_gap) ''Service'' ''DisplayName'' = None"
    by (simp add: profile_text_def fopen_def host_def ini_blank_def)
  have t2: "profile_text ?w (filePath loaded_gap) ''Service'' ''Description'' = None"
    by (simp add: profile_text_def fopen_def host_def ini_blank_def)
  have t3: "profile_number ?w (filePath loaded_gap) ''Service'' ''Interval'' = None"
    by (simp add: profile_number_def fopen_def host_def ini_blank_def)
  have settings: "loaded_gap\<lparr>serviceDispalyName := take 254 SRVC_TAME_SERVICE_DISPLAY_NAME,
            serviceDescription := take 254 SRVC_TAME_SERVICE_DESCRIPTION,
            interval := SRVC_TAME_INTERVAL, crc32 := 0x3E45C4CC, procList := []\<rparr>
        = loaded_gap\<lparr>crc32 := 0x3E45C4CC, procList := []\<rparr>"
    by (simp add: loaded_gap_def SRVC_TAME_SERVICE_DISPLAY_NAME_def
          SRVC_TAME_SERVICE_DESCRIPTION_def)
  have rl: "fst (reload loaded_gap 0x3E45C4CC ?w)
            = loaded_gap\<lparr>crc32 := 0x3E45C4CC, procList := []\<rparr>"
    by (simp add: reload_unfold lst t1 t2 t3 settings del: One_nat_def)
  have second: "Tamer_ReadConfig ?g ?w
        = (0, ?g\<lparr>config := Some (loaded_gap\<lparr>crc32 := 0x3E45C4CC, procList := []\<rparr>)\<rparr>,
           snd (reload loaded_gap 0x3E45C4CC ?w))"
    using differs
    by (simp add: ReadConfig_loaded [OF 1 2] crc rl LL_COUNT_def)
  show ?thesis
    by (simp add: first_read second) (simp add: loaded_gap_def)
qed

text \<open>
  C2 (as the code has it). When the source is unreadable (\<^verbatim>\<open>Tamer_GetFileCRC\<close> gives
  0), \<^verbatim>\<open>Tamer_ReadConfig\<close> returns 0 and leaves the stored list and checksum as they
  were, and \<^verbatim>\<open>Tamer_ServiceProcess\<close> returns \<open>false\<close> at once: the world is unchanged,
  no process is enumerated, whether or not a list had been loaded before.
\<close>

theorem unreadable_source_skips_enforcement:
  assumes "config g = Some c" and "filePath c \<noteq> []"
    and "Tamer_GetFileCRC (filePath c) w = 0"
  shows "Tamer_ReadConfig g w = (0, g, w) \<and> Tamer_ServiceProcess g w = (False, g, w)"
proof -
  have "Tamer_ReadConfig g w = (0, g, w)"
    using assms(3) by (simp add: ReadConfig_loaded [OF assms(1,2)])
  then show ?thesis by (simp add: Tamer_ServiceProcess_def)
qed

theorem unreadable_source_skips_enforcement_witness:
  "Tamer_ReadConfig (service_globals (Some (Tamer_Config0\<lparr>filePath := ini_path\<rparr>))) (host [])
     = (0, service_globals (Some (Tamer_Config0\<lparr>filePath := ini_path\<rparr>)), host [])
   \<and> Tamer_ServiceProcess (service_globals (Some (Tamer_Config0\<lparr>filePath := ini_path\<rparr>))) (host [])
     = (False, service_globals (Some (Tamer_Config0\<lparr>filePath := ini_path\<rparr>)), host [])"
proof -
  let ?c = "Tamer_Config0\<lparr>filePath := ini_path\<rparr>"
  have 1: "config (service_globals (Some ?c)) = Some ?c" by (simp add: service_globals_def)
  have 2: "filePath ?c \<noteq> []" by (simp add: ini_path_nonempty)
  have 3: "Tamer_GetFileCRC (filePath ?c) (host []) = 0" by (simp add: GetFileCRC_missing)
  from unreadable_source_skips_enforcement [OF 1 2 3] show ?thesis .
qed

text \<open>
  C2 as stated fails: the first read of the service loads the rule for \<open>foo.exe\<close>;
  a matching process runs at normal priority; in a later cycle the file is
  missing, and that cycle returns \<open>false\<close> and leaves the world as it was: the trace
  stays empty, no snapshot is taken and the process keeps its priority.
\<close>

theorem stale_rules_are_not_enforced_counterexample:
  "fst (snd (Tamer_ReadConfig (service_globals None) (host [(ini_path, ini_gap)])))
     = service_globals (Some loaded_gap)
   \<and> rules_of (service_globals (Some loaded_gap)) = [rule_foo]
   \<and> stricmp (szExeFile (hd host_procs)) (procName rule_foo) = 0
   \<and> openable (hd host_procs)
   \<and> priorityClass (hd host_procs) = 0x20
   \<and> Tamer_ServiceProcess (service_globals (Some loaded_gap)) (host [])
       = (False, service_globals (Some loaded_gap), host [])
   \<and> trace (host []) = []
   \<and> procs (host []) = host_procs"
proof -
  have r: "Tamer_ReadConfig (service_globals (Some loaded_gap)) (host [])
           = (0, service_globals (Some loaded_gap), host [])"
    by (simp add: Tamer_ReadConfig_def first_run_def figure_path_def service_globals_def
          loaded_gap_def ini_path_nonempty GetFileCRC_missing)
  have "Tamer_ServiceProcess (service_globals (Some loaded_gap)) (host [])
        = (False, service_globals (Some loaded_gap), host [])"
    by (simp add: Tamer_ServiceProcess_def r)
  moreover have "stricmp (szExeFile (hd host_procs)) (procName rule_foo) = 0
      \<and> openable (hd host_procs) \<and> priorityClass (hd host_procs) = 0x20"
    by (simp add: host_procs_def rule_foo_def tolower_def)
  ultimately show ?thesis
    by (simp add: first_read host_fields loaded_fields)
qed

text \<open>
  C3 (as the code has it). One call of \<^verbatim>\<open>Tamer_SetProcessPriority\<close> takes a snapshot
  and, for every process whose image name equals the rule's name ignoring case,
  tries to open it, reads its priority class and, if that differs from
  \<^verbatim>\<open>IDLE_PRIORITY_CLASS\<close>, sets it to \<^verbatim>\<open>IDLE_PRIORITY_CLASS\<close>. The rule's \<open>priority\<close>
  field (the value of \<^verbatim>\<open>Process{N}_Prio\<close>) has no influence on the result.
\<close>

theorem enforcement_sets_idle_priority:
  assumes "distinct (map th32ProcessID (procs w))"
  shows "procs (Tamer_SetProcessPriority proc w) = map (tamed proc) (procs w)
         \<and> trace (Tamer_SetProcessPriority proc w)
             = trace w @ SysSnapshot # concat (map (calls_for proc) (procs w))
         \<and> Tamer_SetProcessPriority (proc\<lparr>priority := target\<rparr>) w
             = Tamer_SetProcessPriority proc w"
proof -
  have same: "tamed (proc\<lparr>priority := target\<rparr>) = tamed proc"
    "calls_for (proc\<lparr>priority := target\<rparr>) = calls_for proc"
    by (simp_all add: tamed_def calls_for_def fun_eq_iff)
  show ?thesis
    by (simp add: SetProcessPriority_char [OF assms] same)
qed

theorem enforcement_sets_idle_priority_witness:
  "map priorityClass (procs (Tamer_SetProcessPriority rule_foo (host []))) = [0x40, 0x20, 0x20, 0x40]
   \<and> trace (Tamer_SetProcessPriority rule_foo (host []))
       = [SysSnapshot,
          SysOpenProcess 4, SysGetPriorityClass 4, SysSetPriorityClass 4 0x40,
          SysOpenProcess 8,
          SysOpenProcess 16, SysGetPriorityClass 16, SysSetPriorityClass 16 0x40]
   \<and> Tamer_SetProcessPriority (rule_foo\<lparr>priority := 0x20\<rparr>) (host [])
       = Tamer_SetProcessPriority rule_foo (host [])"
  using enforcement_sets_idle_priority [OF host_distinct, of rule_foo "[]" "0x20"]
  by (simp add: host_fields tamed_foo calls_foo)

text \<open>
  C3 as stated fails: the rule for \<open>foo.exe\<close> carries the target \<open>0x80\<close>; process 4
  runs at \<open>0x20\<close> and ends at \<open>0x40\<close>, not at the target, and process 16, which
  already runs at the target \<open>0x80\<close>, is moved to \<open>0x40\<close> as well.
\<close>

theorem rule_priority_is_ignored_counterexample:
  "priority rule_foo = 0x80
   \<and> map priorityClass (procs (host [])) = [0x20, 0x20, 0x20, 0x80]
   \<and> map priorityClass (procs (Tamer_SetProcessPriority rule_foo (host [])))
       = [0x40, 0x20, 0x20, 0x40]"
proof -
  have "procs (Tamer_SetProcessPriority rule_foo (host [])) = map (tamed rule_foo) host_procs"
    by (simp add: SetProcessPriority_char [OF host_distinct] host_fields)
  then have "map priorityClass (procs (Tamer_SetProcessPriority rule_foo (host [])))
             = [0x40, 0x20, 0x20, 0x40]"
    by (simp add: tamed_foo)
  moreover have "map priorityClass (procs (host [])) = [0x20, 0x20, 0x20, 0x80]"
    by (simp add: host_fields) (simp add: host_procs_def)
  moreover have "priority rule_foo = 0x80" by (simp add: rule_foo_def)
  ultimately show ?thesis by simp
qed







text \<open>
  C6. The digest computed by \<^verbatim>\<open>Tamer_CRC2\<close> is CRC-32/IEEE: on every input it equals
  the reflected shift register with polynomial \<open>0xEDB88320\<close>, initial value
  \<open>0xFFFFFFFF\<close> and final complement; the empty input gives \<open>0x00000000\<close>; the ASCII
  bytes of \<open>123456789\<close> give \<open>0xCBF43926\<close>. Being a function of the bytes alone, equal
  inputs give equal digests.
\<close>

theorem Tamer_CRC2_is_crc32_ieee:
  "Tamer_CRC2 data = crc32_ieee data
   \<and> Tamer_CRC2 [] = 0x00000000
   \<and> Tamer_CRC2 (map of_char ''123456789'') = 0xCBF43926"
proof -
  have "Tamer_CRC2 data = crc32_ieee data"
    by (simp add: Tamer_CRC2_def crc32_ieee_def foldl_crc_byte)
  moreover have "Tamer_CRC2 [] = 0x00000000"
    by (simp add: Tamer_CRC2_def)
  moreover have "Tamer_CRC2 (map of_char ''123456789'') = 0xCBF43926"
    by (simp add: crc_eval)
  ultimately show ?thesis by simp
qed

text \<open>
  C7. Rule parsing is contiguous in the index and stops at the first missing
  \<^verbatim>\<open>Process{N}_Name\<close>: whenever \<^verbatim>\<open>Tamer_ReadConfig\<close> finds a changed file (on the first
  run, where it allocates the block and figures the path, or later) in which the
  names of the indices 1 to \<open>n\<close> are present and the name of index \<open>n + 1\<close> is
  absent or empty, and memory for \<open>n\<close> nodes is free, it returns \<open>n\<close> and the stored
  list holds exactly the rules of the indices 1 to \<open>n\<close>, in that order, whatever
  the file says for the indices beyond \<open>n + 1\<close>. The profile calls it makes are the
  three for the service settings, name and priority for each index up to \<open>n\<close>, and
  (when memory for one more node is free) the name of index \<open>n + 1\<close>: no index
  beyond that is ever read.
\<close>

theorem parsing_stops_at_first_missing_name:
  assumes "first_run g w = Some (c0, w0)"
    and "figure_path (serviceMode g) c0 w0 = Some c"
    and "Tamer_GetFileCRC (filePath c) w0 \<noteq> 0"
    and "Tamer_GetFileCRC (filePath c) w0 \<noteq> crc32 c"
    and "\<forall>j<n. name_at w (filePath c) (1 + j) \<noteq> []"
    and "name_at w (filePath c) (1 + n) = []"
    and "n \<le> heapFree w0 + length (procList c)"
  shows "fst (Tamer_ReadConfig g w) = int n
         \<and> rules_of (fst (snd (Tamer_ReadConfig g w))) = map (rule_at w (filePath c)) [1..<1 + n]
         \<and> trace (snd (snd (Tamer_ReadConfig g w)))
             = trace w
               @ [SysProfileString ''Service'' ''DisplayName'',
                  SysProfileString ''Service'' ''Description'',
                  SysProfileInt ''Service'' ''Interval'']
               @ concat (map rule_queries [1..<1 + n])
               @ (if n < heapFree w0 + length (procList c)
                  then [SysProfileString ''Processes'' (''Process'' @ decimal (1 + n) @ ''_Name'')]
                  else [])"
proof -
  let ?crc = "Tamer_GetFileCRC (filePath c) w0"
  let ?w = "released c w0"
  have os: "same_os w ?w"
    by (rule same_os_trans [OF first_run_same_os [OF assms(1)] same_os_released])
  have at: "name_at ?w = name_at w" "rule_at ?w = rule_at w"
    by (rule same_os_rule_at [OF os])+
  have names: "\<forall>j<n. name_at ?w (filePath c) (1 + j) \<noteq> []"
    using assms(5) by (simp add: at del: One_nat_def)
  have stop: "name_at ?w (filePath c) (1 + n) = []"
    using assms(6) by (simp add: at del: One_nat_def)
  have heap: "n \<le> heapFree ?w"
    using assms(7) by (simp add: released_def)
  have h: "heapFree ?w = heapFree w0 + length (procList c)" by (simp add: released_def)
  have "fst (build_list (filePath c) 1 [] ?w) = [] @ map (rule_at ?w (filePath c)) [1..<1 + n]"
    by (rule build_list_contiguous [OF names stop heap])
  then have lst: "fst (build_list (filePath c) 1 [] ?w) = map (rule_at w (filePath c)) [1..<1 + n]"
    by (simp add: at del: One_nat_def)
  have tr: "trace (snd (build_list (filePath c) 1 [] ?w))
        = trace w
               @ [SysProfileString ''Service'' ''DisplayName'',
                  SysProfileString ''Service'' ''Description'',
                  SysProfileInt ''Service'' ''Interval'']
               @ concat (map rule_queries [1..<1 + n])
               @ (if n < heapFree w0 + length (procList c)
                  then [SysProfileString ''Processes'' (''Process'' @ decimal (1 + n) @ ''_Name'')]
                  else [])"
    unfolding build_list_trace [OF names stop heap] h trace_released first_run_trace [OF assms(1)]
    by simp
  have rc: "Tamer_ReadConfig g w
            = (int n, g\<lparr>config := Some (fst (reload c ?crc w0))\<rparr>, snd (reload c ?crc w0))"
    using assms(3,4)
    by (simp add: ReadConfig_steps [OF assms(1,2)] reload_unfold lst LL_COUNT_def del: One_nat_def)
  have stored: "procList (fst (reload c ?crc w0)) = map (rule_at w (filePath c)) [1..<1 + n]"
    by (simp add: reload_unfold lst del: One_nat_def)
  have w2: "snd (reload c ?crc w0) = snd (build_list (filePath c) 1 [] ?w)"
    by (simp add: reload_unfold)
  show ?thesis
    unfolding rc fst_conv snd_conv w2 tr by (simp add: rules_of_def stored del: One_nat_def)
qed

text \<open>
  On the concrete host: the file with \<^verbatim>\<open>Process1_Name\<close> and \<^verbatim>\<open>Process3_Name\<close> but no
  \<^verbatim>\<open>Process2_Name\<close> gives exactly one rule, and the last call made is the one for
  \<^verbatim>\<open>Process2_Name\<close>; the file with the names 1 and 2 gives both rules.
\<close>

theorem parsing_stops_at_first_missing_name_witness:
  "name_at (host [(ini_path, ini_gap)]) ini_path 3 = ''baz.exe''
   \<and> fst (Tamer_ReadConfig (service_globals None) (host [(ini_path, ini_gap)])) = 1
   \<and> rules_of (fst (snd (Tamer_ReadConfig (service_globals None) (host [(ini_path, ini_gap)]))))
       = [rule_foo]
   \<and> trace (snd (snd (Tamer_ReadConfig (service_globals None) (host [(ini_path, ini_gap)]))))
       = [SysProfileString ''Service'' ''DisplayName'',
          SysProfileString ''Service'' ''Description'',
          SysProfileInt ''Service'' ''Interval'',
          SysProfileString ''Processes'' ''Process1_Name'',
          SysProfileInt ''Processes'' ''Process1_Prio'',
          SysProfileString ''Processes'' ''Process2_Name'']
   \<and> fst (Tamer_ReadConfig (service_globals None) (host [(ini_path, ini_twice)])) = 2
   \<and> rules_of (fst (snd (Tamer_ReadConfig (service_globals None) (host [(ini_path, ini_twice)]))))
       = [\<lparr>procName = ''foo.exe'', priority = 0\<rparr>, \<lparr>procName = ''FOO.EXE'', priority = 0\<rparr>]"
proof -
  let ?c = "Tamer_Config0\<lparr>filePath := ini_path\<rparr>"
  let ?w = "host [(ini_path, ini_gap)]"
  let ?started = "?w\<lparr>heapFree := 15\<rparr>"
  let ?v = "host [(ini_path, ini_twice)]"
  let ?vstarted = "?v\<lparr>heapFree := 15\<rparr>"
  have 3: "Tamer_GetFileCRC (filePath ?c) ?started \<noteq> 0"
    by (simp add: GetFileCRC_host_started crc_ini_gap)
  have 4: "Tamer_GetFileCRC (filePath ?c) ?started \<noteq> crc32 ?c"
    by (simp add: GetFileCRC_host_started crc_ini_gap Tamer_Config0_def)
  have 5: "\<forall>j<1. name_at ?w (filePath ?c) (1 + j) \<noteq> []"
    using gap_1 by (simp add: rule_at_def rule_foo_def)
  have 6: "name_at ?w (filePath ?c) (1 + 1) = []"
    using gap_2 by (simp add: numeral_2_eq_2)
  have 7: "1 \<le> heapFree ?started + length (procList ?c)" by simp
  have upto: "[1..<2] = [1::nat]" by (simp add: upt_rec)
  have t3: "Tamer_GetFileCRC (filePath ?c) ?vstarted \<noteq> 0"
    by (simp add: GetFileCRC_host_started crc_ini_twice)
  have t4: "Tamer_GetFileCRC (filePath ?c) ?vstarted \<noteq> crc32 ?c"
    by (simp add: GetFileCRC_host_started crc_ini_twice Tamer_Config0_def)
  have t5: "\<forall>j<2. name_at ?v (filePath ?c) (1 + j) \<noteq> []"
  proof (intro allI impI)
    fix j :: nat assume "j < 2"
    then have "j = 0 \<or> j = 1" by auto
    then show "name_at ?v (filePath ?c) (1 + j) \<noteq> []"
      using twice_names(1,2) by (auto simp add: rule_at_def numeral_2_eq_2)
  qed
  have t6: "name_at ?v (filePath ?c) (1 + 2) = []"
    using twice_names(3) by (simp add: numeral_3_eq_3)
  have t7: "2 \<le> heapFree ?vstarted + length (procList ?c)" by simp
  have rules: "map (rule_at ?v (filePath ?c)) [1..<1 + 2]
               = [\<lparr>procName = ''foo.exe'', priority = 0\<rparr>, \<lparr>procName = ''FOO.EXE'', priority = 0\<rparr>]"
    using twice_names(1,2) by (simp add: upt_rec numeral_2_eq_2)
  note one = parsing_stops_at_first_missing_name [OF host_start 3 4 5 6 7]
  note two = parsing_stops_at_first_missing_name [OF host_start t3 t4 t5 t6 t7, unfolded rules]
  from one two show ?thesis
    by (simp add: upto gap_1 gap_3 host_fields rule_queries_def decimal.simps del: One_nat_def)
qed

text \<open>
  C8. When the checksum of the source equals the stored one, \<^verbatim>\<open>Tamer_ReadConfig\<close>
  changes neither the globals nor the world (so no profile call is made and no
  list is built) and returns the size of the list it already had (0 when the
  shared checksum is the reserved 0); a second call right after does the same.
\<close>

theorem unchanged_checksum_is_noop:
  assumes "config g = Some c" and "filePath c \<noteq> []"
    and "Tamer_GetFileCRC (filePath c) w = crc32 c"
  shows "Tamer_ReadConfig g w = ((if crc32 c = 0 then 0 else LL_COUNT (procList c)), g, w)
         \<and> Tamer_ReadConfig (fst (snd (Tamer_ReadConfig g w))) (snd (snd (Tamer_ReadConfig g w)))
             = Tamer_ReadConfig g w"
proof -
  have once: "Tamer_ReadConfig g w = ((if crc32 c = 0 then 0 else LL_COUNT (procList c)), g, w)"
    using assms(3) by (simp add: ReadConfig_loaded [OF assms(1,2)])
  then show ?thesis by simp
qed

theorem unchanged_checksum_is_noop_witness:
  "Tamer_ReadConfig (service_globals (Some loaded_gap)) (host [(ini_path, ini_gap)])
     = (1, service_globals (Some loaded_gap), host [(ini_path, ini_gap)])
   \<and> Tamer_ReadConfig
        (fst (snd (Tamer_ReadConfig (service_globals (Some loaded_gap)) (host [(ini_path, ini_gap)]))))
        (snd (snd (Tamer_ReadConfig (service_globals (Some loaded_gap)) (host [(ini_path, ini_gap)]))))
     = (1, service_globals (Some loaded_gap), host [(ini_path, ini_gap)])"
proof -
  let ?g = "service_globals (Some loaded_gap)"
  let ?w = "host [(ini_path, ini_gap)]"
  have 1: "config ?g = Some loaded_gap" by (simp add: service_globals_def)
  have 2: "filePath loaded_gap \<noteq> []" by (simp add: loaded_gap_def ini_path_nonempty)
  have 3: "Tamer_GetFileCRC (filePath loaded_gap) ?w = crc32 loaded_gap"
    by (simp add: loaded_gap_def GetFileCRC_host crc_ini_gap)
  have n: "(if crc32 loaded_gap = 0 then 0 else LL_COUNT (procList loaded_gap)) = 1"
    by (simp add: loaded_gap_def LL_COUNT_def)
  from unchanged_checksum_is_noop [OF 1 2 3] show ?thesis
    unfolding n by simp
qed

text \<open>
  C9. In one call of \<^verbatim>\<open>Tamer_SetProcessPriority\<close> every process whose image name
  matches is visited, in snapshot order, whether or not an earlier one could be
  opened: the open attempts are exactly the ids of the matching processes. Each
  matching process that can be opened ends at \<^verbatim>\<open>IDLE_PRIORITY_CLASS\<close>, each one that
  cannot is left as it was, also when several of them share the image name.
\<close>

theorem unopenable_process_is_skipped:
  assumes "distinct (map th32ProcessID (procs w))"
  shows "open_attempts (trace (Tamer_SetProcessPriority proc w))
           = open_attempts (trace w)
             @ map th32ProcessID
                 (filter (\<lambda>p. stricmp (szExeFile p) (procName proc) = 0) (procs w))
         \<and> (\<forall>p \<in> set (procs w). stricmp (szExeFile p) (procName proc) = 0 \<longrightarrow>
               (if openable p then p\<lparr>priorityClass := IDLE_PRIORITY_CLASS\<rparr> else p)
                 \<in> set (procs (Tamer_SetProcessPriority proc w)))"
proof (intro conjI ballI impI)
  show "open_attempts (trace (Tamer_SetProcessPriority proc w))
          = open_attempts (trace w)
            @ map th32ProcessID
                (filter (\<lambda>p. stricmp (szExeFile p) (procName proc) = 0) (procs w))"
    by (rule SetProcessPriority_obs(1))
next
  fix p
  assume p: "p \<in> set (procs w)" and m: "stricmp (szExeFile p) (procName proc) = 0"
  have "tamed proc p \<in> set (map (tamed proc) (procs w))"
    using p by simp
  moreover have "tamed proc p = (if openable p then p\<lparr>priorityClass := IDLE_PRIORITY_CLASS\<rparr> else p)"
    using m by (simp add: tamed_def)
  ultimately show "(if openable p then p\<lparr>priorityClass := IDLE_PRIORITY_CLASS\<rparr> else p)
        \<in> set (procs (Tamer_SetProcessPriority proc w))"
    by (simp add: SetProcessPriority_char [OF assms])
qed

theorem unopenable_process_is_skipped_witness:
  "open_attempts (trace (Tamer_SetProcessPriority rule_foo (host []))) = [4, 8, 16]
   \<and> procs (Tamer_SetProcessPriority rule_foo (host []))
      = [\<lparr>th32ProcessID = 4, szExeFile = ''foo.exe'', priorityClass = 0x40, openable = True\<rparr>,
         \<lparr>th32ProcessID = 8, szExeFile = ''FOO.EXE'', priorityClass = 0x20, openable = False\<rparr>,
         \<lparr>th32ProcessID = 12, szExeFile = ''bar.exe'', priorityClass = 0x20, openable = True\<rparr>,
         \<lparr>th32ProcessID = 16, szExeFile = ''Foo.exe'', priorityClass = 0x40, openable = True\<rparr>]"
proof -
  have name: "procName rule_foo = ''foo.exe''" by (simp add: rule_foo_def)
  from unopenable_process_is_skipped [OF host_distinct, of rule_foo "[]"]
  have attempts: "open_attempts (trace (Tamer_SetProcessPriority rule_foo (host []))) = [4, 8, 16]"
    by (simp add: host_fields name matching_foo)
  have "procs (Tamer_SetProcessPriority rule_foo (host [])) = map (tamed rule_foo) host_procs"
    by (simp add: SetProcessPriority_char [OF host_distinct] host_fields)
  then have "procs (Tamer_SetProcessPriority rule_foo (host []))
      = [\<lparr>th32ProcessID = 4, szExeFile = ''foo.exe'', priorityClass = 0x40, openable = True\<rparr>,
         \<lparr>th32ProcessID = 8, szExeFile = ''FOO.EXE'', priorityClass = 0x20, openable = False\<rparr>,
         \<lparr>th32ProcessID = 12, szExeFile = ''bar.exe'', priorityClass = 0x20, openable = True\<rparr>,
         \<lparr>th32ProcessID = 16, szExeFile = ''Foo.exe'', priorityClass = 0x40, openable = True\<rparr>]"
    by (simp add: tamed_foo)
  with attempts show ?thesis by simp
qed

text \<open>
  C10. Duplicate rules are kept and all apply.

  The loader: when \<^verbatim>\<open>Tamer_ReadConfig\<close> finds a changed file that holds non-empty
  names for the indices 1 to \<open>n\<close> and none for \<open>n + 1\<close>, the stored list is one rule
  per index, in index order; no name is compared with another, so a name that
  occurs twice gives two rules. When the checksum is unchanged the stored list is
  the one already held.

  The pass: in every cycle in which \<^verbatim>\<open>Tamer_ReadConfig\<close> returns a non-zero count,
  after a reload as well as in the steady state, \<^verbatim>\<open>Tamer_ServiceProcess\<close> returns
  \<open>true\<close> and has applied every stored rule, in the stored order: for each rule in
  turn it takes a snapshot and, for every process whose image name matches that
  rule, tries to open it, reads its priority class and sets it to
  \<^verbatim>\<open>IDLE_PRIORITY_CLASS\<close> unless it is that already. So two rules that name the same
  image each visit all its processes, and afterwards every process that can be
  opened and matches some rule is at \<^verbatim>\<open>IDLE_PRIORITY_CLASS\<close>.
\<close>

theorem duplicate_rules_all_apply:
  assumes "Tamer_ReadConfig g w = (k, g1, w1)"
    and "k \<noteq> 0"
    and "distinct (map th32ProcessID (procs w))"
  shows "Tamer_ServiceProcess g w
           = (True, g1, w1\<lparr>procs := map (tamed_by (rules_of g1)) (procs w),
                            trace := trace w1 @ pass_calls (rules_of g1) (procs w)\<rparr>)
         \<and> open_attempts (pass_calls (rules_of g1) (procs w))
             = concat (map (\<lambda>r. map th32ProcessID
                                   (filter (\<lambda>p. stricmp (szExeFile p) (procName r) = 0) (procs w)))
                           (rules_of g1))
         \<and> (first_run g w = Some (c0, w0) \<longrightarrow> figure_path (serviceMode g) c0 w0 = Some c \<longrightarrow>
              Tamer_GetFileCRC (filePath c) w0 \<noteq> crc32 c \<longrightarrow>
              (\<forall>j<n. name_at w (filePath c) (1 + j) \<noteq> []) \<longrightarrow>
              name_at w (filePath c) (1 + n) = [] \<longrightarrow>
              n \<le> heapFree w0 + length (procList c) \<longrightarrow>
              rules_of g1 = map (rule_at w (filePath c)) [1..<1 + n])
         \<and> (first_run g w = Some (c0, w0) \<longrightarrow> figure_path (serviceMode g) c0 w0 = Some c \<longrightarrow>
              Tamer_GetFileCRC (filePath c) w0 = crc32 c \<longrightarrow>
              rules_of g1 = procList c)"
proof -
  from ReadConfig_frame(4) [OF assms(1,2)] obtain c1
    where c1: "config g1 = Some c1" and len: "k = int (length (procList c1))" by blast
  from len assms(2) have ne: "procList c1 \<noteq> []" by auto
  have rules: "rules_of g1 = procList c1" by (simp add: rules_of_def c1)
  have os: "same_os w w1" by (rule ReadConfig_frame(1) [OF assms(1)])
  have ps: "procs w1 = procs w" by (rule same_os_fields(2) [OF os])
  have d: "distinct (map th32ProcessID (procs w1))" using assms(3) by (simp add: ps)
  have pass: "Tamer_ServiceProcess g w
           = (True, g1, w1\<lparr>procs := map (tamed_by (rules_of g1)) (procs w),
                            trace := trace w1 @ pass_calls (rules_of g1) (procs w)\<rparr>)"
    unfolding ServiceProcess_pass [OF assms(1,2) c1 ne] pass_effect [OF d] rules ps ..
  have opens: "open_attempts (pass_calls (rules_of g1) (procs w))
             = concat (map (\<lambda>r. map th32ProcessID
                                   (filter (\<lambda>p. stricmp (szExeFile p) (procName r) = 0) (procs w)))
                           (rules_of g1))"
    by (rule pass_calls_opens)
  have loaded: "rules_of g1 = map (rule_at w (filePath c)) [1..<1 + n]"
    if a: "first_run g w = Some (c0, w0)" and b: "figure_path (serviceMode g) c0 w0 = Some c"
      and differs: "Tamer_GetFileCRC (filePath c) w0 \<noteq> crc32 c"
      and present: "\<forall>j<n. name_at w (filePath c) (1 + j) \<noteq> []"
      and absent: "name_at w (filePath c) (1 + n) = []"
      and room: "n \<le> heapFree w0 + length (procList c)"
  proof -
    let ?crc = "Tamer_GetFileCRC (filePath c) w0"
    let ?w = "released c w0"
    have os0: "same_os w ?w"
      by (rule same_os_trans [OF first_run_same_os [OF a] same_os_released])
    have at: "name_at ?w = name_at w" "rule_at ?w = rule_at w"
      by (rule same_os_rule_at [OF os0])+
    have names: "\<forall>j<n. name_at ?w (filePath c) (1 + j) \<noteq> []"
      using present by (simp add: at del: One_nat_def)
    have stop: "name_at ?w (filePath c) (1 + n) = []"
      using absent by (simp add: at del: One_nat_def)
    have heap: "n \<le> heapFree ?w"
      using room by (simp add: released_def)
    have "fst (build_list (filePath c) 1 [] ?w) = [] @ map (rule_at ?w (filePath c)) [1..<1 + n]"
      by (rule build_list_contiguous [OF names stop heap])
    then have lst: "fst (build_list (filePath c) 1 [] ?w) = map (rule_at w (filePath c)) [1..<1 + n]"
      by (simp add: at del: One_nat_def)
    have "?crc \<noteq> 0"
      using assms(1,2) by (auto simp add: ReadConfig_steps [OF a b])
    with differs assms(1) have "g1 = g\<lparr>config := Some (fst (reload c ?crc w0))\<rparr>"
      by (simp add: ReadConfig_steps [OF a b])
    then show ?thesis
      by (simp add: rules_of_def reload_unfold lst del: One_nat_def)
  qed
  have steady: "rules_of g1 = procList c"
    if a: "first_run g w = Some (c0, w0)" and b: "figure_path (serviceMode g) c0 w0 = Some c"
      and same: "Tamer_GetFileCRC (filePath c) w0 = crc32 c"
  proof -
    have "Tamer_GetFileCRC (filePath c) w0 \<noteq> 0"
      using assms(1,2) by (auto simp add: ReadConfig_steps [OF a b])
    with same assms(1) have "g1 = g\<lparr>config := Some c\<rparr>"
      by (simp add: ReadConfig_steps [OF a b])
    then show ?thesis by (simp add: rules_of_def)
  qed
  from pass opens loaded steady show ?thesis by blast
qed

text \<open>
  On the concrete host, with the file that names \<open>foo.exe\<close> and \<open>FOO.EXE\<close>: the
  first cycle stores both rules and makes two rounds over the three matching
  processes, the first of which sets the two that can be opened to
  \<^verbatim>\<open>IDLE_PRIORITY_CLASS\<close> and the second of which finds them there; a cycle in the
  steady state, on the same processes, does the same two rounds.
\<close>

theorem duplicate_rules_all_apply_witness:
  "Tamer_ServiceProcess (service_globals None) (host [(ini_path, ini_twice)])
     = (True, service_globals (Some loaded_twice),
        (host [(ini_path, ini_twice)])
          \<lparr>heapFree := 13,
           trace := [SysProfileString ''Service'' ''DisplayName'',
                     SysProfileString ''Service'' ''Description'',
                     SysProfileInt ''Service'' ''Interval'',
                     SysProfileString ''Processes'' ''Process1_Name'',
                     SysProfileInt ''Processes'' ''Process1_Prio'',
                     SysProfileString ''Processes'' ''Process2_Name'',
                     SysProfileInt ''Processes'' ''Process2_Prio'',
                     SysProfileString ''Processes'' ''Process3_Name'',
                     SysSnapshot,
                     SysOpenProcess 4, SysGetPriorityClass 4, SysSetPriorityClass 4 0x40,
                     SysOpenProcess 8,
                     SysOpenProcess 16, SysGetPriorityClass 16, SysSetPriorityClass 16 0x40,
                     SysSnapshot,
                     SysOpenProcess 4, SysGetPriorityClass 4,
                     SysOpenProcess 8,
                     SysOpenProcess 16, SysGetPriorityClass 16],
           procs := [\<lparr>th32ProcessID = 4, szExeFile = ''foo.exe'', priorityClass = 0x40, openable = True\<rparr>,
                     \<lparr>th32ProcessID = 8, szExeFile = ''FOO.EXE'', priorityClass = 0x20, openable = False\<rparr>,
                     \<lparr>th32ProcessID = 12, szExeFile = ''bar.exe'', priorityClass = 0x20, openable = True\<rparr>,
                     \<lparr>th32ProcessID = 16, szExeFile = ''Foo.exe'', priorityClass = 0x40, openable = True\<rparr>]\<rparr>)
   \<and> rules_of (service_globals (Some loaded_twice))
       = [\<lparr>procName = ''foo.exe'', priority = 0\<rparr>, \<lparr>procName = ''FOO.EXE'', priority = 0\<rparr>]
   \<and> Tamer_ServiceProcess (service_globals (Some loaded_twice)) (host [(ini_path, ini_twice)])
     = (True, service_globals (Some loaded_twice),
        (host [(ini_path, ini_twice)])
          \<lparr>trace := [SysSnapshot,
                     SysOpenProcess 4, SysGetPriorityClass 4, SysSetPriorityClass 4 0x40,
                     SysOpenProcess 8,
                     SysOpenProcess 16, SysGetPriorityClass 16, SysSetPriorityClass 16 0x40,
                     SysSnapshot,
                     SysOpenProcess 4, SysGetPriorityClass 4,
                     SysOpenProcess 8,
                     SysOpenProcess 16, SysGetPriorityClass 16],
           procs := [\<lparr>th32ProcessID = 4, szExeFile = ''foo.exe'', priorityClass = 0x40, openable = True\<rparr>,
                     \<lparr>th32ProcessID = 8, szExeFile = ''FOO.EXE'', priorityClass = 0x20, openable = False\<rparr>,
                     \<lparr>th32ProcessID = 12, szExeFile = ''bar.exe'', priorityClass = 0x20, openable = True\<rparr>,
                     \<lparr>th32ProcessID = 16, szExeFile = ''Foo.exe'', priorityClass = 0x40, openable = True\<rparr>]\<rparr>)"
proof -
  let ?c = "Tamer_Config0\<lparr>filePath := ini_path\<rparr>"
  let ?w = "host [(ini_path, ini_twice)]"
  let ?started = "?w\<lparr>heapFree := 15\<rparr>"
  have two: "(2::int) \<noteq> 0" by simp
  have 4: "Tamer_GetFileCRC (filePath ?c) ?started \<noteq> crc32 ?c"
    by (simp add: GetFileCRC_host_started crc_ini_twice Tamer_Config0_def)
  have 5: "\<forall>j<2. name_at ?w (filePath ?c) (1 + j) \<noteq> []"
  proof (intro allI impI)
    fix j :: nat assume "j < 2"
    then have "j = 0 \<or> j = 1" by auto
    then show "name_at ?w (filePath ?c) (1 + j) \<noteq> []"
      using twice_names(1,2) by (auto simp add: rule_at_def numeral_2_eq_2)
  qed
  have 6: "name_at ?w (filePath ?c) (1 + 2) = []"
    using twice_names(3) by (simp add: numeral_3_eq_3)
  have 7: "2 \<le> heapFree ?started + length (procList ?c)" by simp
  have rules: "map (rule_at ?w (filePath ?c)) [1..<1 + 2]
               = [\<lparr>procName = ''foo.exe'', priority = 0\<rparr>, \<lparr>procName = ''FOO.EXE'', priority = 0\<rparr>]"
    using twice_names(1,2) by (simp add: upt_rec numeral_2_eq_2)
  have path: "filePath loaded_twice \<noteq> []" by (simp add: loaded_fields ini_path_nonempty)
  have same: "Tamer_GetFileCRC (filePath loaded_twice) ?w = crc32 loaded_twice"
    by (simp add: loaded_fields GetFileCRC_host crc_ini_twice)
  note first = duplicate_rules_all_apply [OF first_read_twice two host_distinct,
      of Tamer_Config0 ?started ?c 2, unfolded rules]
  note later = duplicate_rules_all_apply [OF noop_read_twice two host_distinct,
      of loaded_twice ?w loaded_twice]
  note evaluated = rules_of_service host_fields tamed_twice calls_twice
  from first [unfolded evaluated] later [unfolded evaluated] show ?thesis
    by (simp add: host_start 4 5 6 loaded_start path same loaded_fields(6))
qed

end
